theory Spec2Isabelle
  imports Main "HOL-Library.Word" "HOL-Library.Product_Lexorder"
begin

unbundle bit_operations_syntax

section \<open>Python values used by \<open>pyocr/builders.py\<close>\<close>

text \<open>
  Strings are lists of characters, one \<^typ>\<open>char\<close> per code point. Python integers are
  unbounded: \<^typ>\<open>int\<close>. An exception is a value of \<open>py_error\<close>; a function that can
  raise returns \<open>py_error + 'a\<close>, with \<open>Inl\<close> for the exception.
\<close>

datatype py_error = IndexError | ValueError | TypeError | AttributeError | Exception string

text \<open>
  Modelled from the spec: \<open>to_unicode\<close> of \<open>pyocr/util.py\<close> is not part of the sources.
  The spec places encoding handling outside the core, which receives decoded text, so on
  the strings of this model it changes nothing.
\<close>

definition to_unicode :: "string \<Rightarrow> string" where
  "to_unicode s = s"

subsection \<open>\<open>str.strip\<close>, \<open>str.startswith\<close>, \<open>str.split\<close>\<close>

text \<open>The code points below 256 for which \<open>str.isspace\<close> holds.\<close>

definition py_isspace :: "char \<Rightarrow> bool" where
  "py_isspace c = (of_char c \<in> set [9, 10, 11, 12, 13, 28, 29, 30, 31, 32, 133, 160 :: nat])"

definition py_strip :: "string \<Rightarrow> string" where
  "py_strip s = rev (dropWhile py_isspace (rev (dropWhile py_isspace s)))"

definition py_startswith :: "string \<Rightarrow> string \<Rightarrow> bool" where
  "py_startswith s p = (take (length p) s = p)"

text \<open>
  \<open>s.split(sep)\<close> for a non-empty separator: \<open>split_from sep cur s\<close> scans \<open>s\<close> from the left,
  \<open>cur\<close> being the piece collected since the last separator. The source only splits on the
  literals \<open>" "\<close> and \<open>"; "\<close>.
\<close>

fun split_from :: "string \<Rightarrow> string \<Rightarrow> string \<Rightarrow> string list" where
  "split_from sep cur [] = [cur]"
| "split_from sep cur (c # cs) =
     (if sep \<noteq> [] \<and> take (length sep) (c # cs) = sep
      then cur # split_from sep [] (drop (length sep - 1) cs)
      else split_from sep (cur @ [c]) cs)"

definition py_split :: "string \<Rightarrow> string \<Rightarrow> string list" where
  "py_split s sep = split_from sep [] s"

subsection \<open>Indexing, \<open>range\<close>, \<open>min\<close>, \<open>max\<close>, \<open>list.remove\<close>\<close>

definition py_index :: "'a list \<Rightarrow> nat \<Rightarrow> py_error + 'a" where
  "py_index xs i = (if i < length xs then Inr (xs ! i) else Inl IndexError)"

text \<open>\<open>xs[-1]\<close>\<close>

definition py_last :: "'a list \<Rightarrow> py_error + 'a" where
  "py_last xs = (if xs = [] then Inl IndexError else Inr (last xs))"

text \<open>\<open>range(start, stop, step)\<close> for a positive step.\<close>

definition py_range :: "nat \<Rightarrow> nat \<Rightarrow> nat \<Rightarrow> nat list" where
  "py_range start stop step =
     map (\<lambda>i. start + i * step) [0 ..< (stop - start + step - 1) div step]"

definition py_min :: "int list \<Rightarrow> py_error + int" where
  "py_min xs = (case xs of [] \<Rightarrow> Inl ValueError | x # r \<Rightarrow> Inr (fold min r x))"

definition py_max :: "int list \<Rightarrow> py_error + int" where
  "py_max xs = (case xs of [] \<Rightarrow> Inl ValueError | x # r \<Rightarrow> Inr (fold max r x))"

text \<open>
  \<open>while True: xs.remove(x)\<close> inside \<open>try ... except ValueError: pass\<close>: the first
  occurrence is removed again and again, until \<open>remove\<close> finds none.
\<close>

function remove_all :: "'a \<Rightarrow> 'a list \<Rightarrow> 'a list" where
  "remove_all x xs = (if x \<in> set xs then remove_all x (remove1 x xs) else xs)"
  by pat_completeness auto
termination
proof (relation "measure (\<lambda>(x, xs). length xs)")
  fix x :: 'a and xs :: "'a list"
  assume "x \<in> set xs"
  then have "0 < length xs"
    by (cases xs) auto
  then show "((x, remove1 x xs), (x, xs)) \<in> measure (\<lambda>(x, xs). length xs)"
    using \<open>x \<in> set xs\<close> by (simp add: length_remove1)
qed simp

declare remove_all.simps [simp del]

text \<open>A list comprehension whose elements can raise: the first exception ends it.\<close>

fun sequence_err :: "('e + 'a) list \<Rightarrow> 'e + 'a list" where
  "sequence_err [] = Inr []"
| "sequence_err (r # rs) =
     (case r of Inl e \<Rightarrow> Inl e
      | Inr x \<Rightarrow> (case sequence_err rs of Inl e \<Rightarrow> Inl e | Inr xs \<Rightarrow> Inr (x # xs)))"

subsection \<open>\<open>int(s)\<close> and \<open>"%d" % n\<close>\<close>

definition is_digit :: "char \<Rightarrow> bool" where
  "is_digit c = (48 \<le> (of_char c :: nat) \<and> (of_char c :: nat) \<le> 57)"

definition digit_val :: "char \<Rightarrow> nat" where
  "digit_val c = of_char c - 48"

definition digits_val :: "string \<Rightarrow> nat" where
  "digits_val ds = foldl (\<lambda>acc c. 10 * acc + digit_val c) 0 ds"

text \<open>
  The characters \<open>int\<close> skips around a number. They are fewer than those of \<open>str.strip\<close>:
  the separators U+001C to U+001F are not among them (\<open>int("\x1c1")\<close> raises \<open>ValueError\<close>).
\<close>

definition int_isspace :: "char \<Rightarrow> bool" where
  "int_isspace c = (of_char c \<in> set [9, 10, 11, 12, 13, 32, 133, 160 :: nat])"

definition int_strip :: "string \<Rightarrow> string" where
  "int_strip s = rev (dropWhile int_isspace (rev (dropWhile int_isspace s)))"

text \<open>
  The digits of a decimal literal as \<open>int\<close> accepts it: a digit first, a digit last, and at
  most one underscore between two digits (\<open>int("1_0")\<close> is 10; \<open>"_1"\<close>, \<open>"1_"\<close> and \<open>"1__0"\<close> are
  refused). The result is the digits without the underscores, \<open>None\<close> for a refused string.
  Below code point 256 the decimal digits are \<open>0\<close> to \<open>9\<close> only.
\<close>

fun int_digits :: "string \<Rightarrow> string option" where
  "int_digits [] = None"
| "int_digits [c] = (if is_digit c then Some [c] else None)"
| "int_digits (c # d # r) =
     (if is_digit c
      then (if d = CHR ''_'' then map_option (Cons c) (int_digits r)
            else map_option (Cons c) (int_digits (d # r)))
      else None)"

text \<open>
  \<open>int(s)\<close> on a string: the whitespace around it is skipped, one sign is allowed, and the
  digits must follow the sign at once; anything else raises \<open>ValueError\<close>.
\<close>

definition py_int :: "string \<Rightarrow> py_error + int" where
  "py_int s =
     (let t = int_strip s;
          neg = (t \<noteq> [] \<and> hd t = CHR ''-'');
          ds = (if t \<noteq> [] \<and> (hd t = CHR ''-'' \<or> hd t = CHR ''+'') then tl t else t)
      in case int_digits ds of
           None \<Rightarrow> Inl ValueError
         | Some digits \<Rightarrow>
             Inr (if neg then - int (digits_val digits) else int (digits_val digits)))"

definition digit_char :: "nat \<Rightarrow> char" where
  "digit_char d = char_of (48 + d)"

function show_nat :: "nat \<Rightarrow> string" where
  "show_nat n = (if n < 10 then [digit_char n] else show_nat (n div 10) @ [digit_char (n mod 10)])"
  by pat_completeness auto
termination
  by (relation "measure id") auto

declare show_nat.simps [simp del]

text \<open>\<open>"%d" % n\<close>\<close>

definition fmt_d :: "int \<Rightarrow> string" where
  "fmt_d n = (if n < 0 then CHR ''-'' # show_nat (nat (- n)) else show_nat (nat n))"

section \<open>The region model: \<open>Box\<close> and \<open>LineBox\<close>\<close>

text \<open>
  A position is \<open>((x0, y0), (x1, y1))\<close>: \<open>position[0][0]\<close> is \<open>fst (fst p)\<close>,
  \<open>position[0][1]\<close> is \<open>snd (fst p)\<close>, \<open>position[1][0]\<close> is \<open>fst (snd p)\<close> and
  \<open>position[1][1]\<close> is \<open>snd (snd p)\<close>.
\<close>

type_synonym rect = "(int \<times> int) \<times> (int \<times> int)"

record Box =
  content :: string
  position :: rect
  confidence :: int

text \<open>\<open>Box.__init__(content, position, confidence=0)\<close>\<close>

definition Box_init :: "string \<Rightarrow> rect \<Rightarrow> int \<Rightarrow> Box" where
  "Box_init c p k = \<lparr>content = to_unicode c, Box.position = p, confidence = k\<rparr>"

record LineBox =
  word_boxes :: "Box list"
  position :: rect

definition LineBox_init :: "Box list \<Rightarrow> rect \<Rightarrow> LineBox" where
  "LineBox_init ws p = \<lparr>word_boxes = ws, LineBox.position = p\<rparr>"

text \<open>
  The loop of \<open>__box_cmp\<close> over its four pairs \<open>(x, y)\<close>: the first pair that differs
  decides, and 0 is returned when none does.
\<close>

fun cmp_pairs :: "(int \<times> int) list \<Rightarrow> int" where
  "cmp_pairs [] = 0"
| "cmp_pairs ((x, y) # ps) = (if x < y then - 1 else if x > y then 1 else cmp_pairs ps)"

text \<open>The four pairs, in the order of the source.\<close>

definition cmp_keys :: "rect \<Rightarrow> rect \<Rightarrow> (int \<times> int) list" where
  "cmp_keys p q =
     [(snd (fst p), snd (fst q)),
      (snd (snd p), snd (snd q)),
      (fst (fst p), fst (fst q)),
      (fst (snd p), fst (snd q))]"

text \<open>\<open>Box.__box_cmp\<close>; \<open>other\<close> is \<open>None\<close> or another \<open>Box\<close>.\<close>

definition Box_box_cmp :: "Box \<Rightarrow> Box option \<Rightarrow> int" where
  "Box_box_cmp self other =
     (case other of
        None \<Rightarrow> - 1
      | Some b \<Rightarrow> cmp_pairs (cmp_keys (Box.position self) (Box.position b)))"

definition Box_lt :: "Box \<Rightarrow> Box option \<Rightarrow> bool" where
  "Box_lt self other = (Box_box_cmp self other < 0)"

definition Box_gt :: "Box \<Rightarrow> Box option \<Rightarrow> bool" where
  "Box_gt self other = (Box_box_cmp self other > 0)"

definition Box_eq :: "Box \<Rightarrow> Box option \<Rightarrow> bool" where
  "Box_eq self other = (Box_box_cmp self other = 0)"

definition Box_le :: "Box \<Rightarrow> Box option \<Rightarrow> bool" where
  "Box_le self other = (Box_box_cmp self other \<le> 0)"

definition Box_ge :: "Box \<Rightarrow> Box option \<Rightarrow> bool" where
  "Box_ge self other = (Box_box_cmp self other \<ge> 0)"

definition Box_ne :: "Box \<Rightarrow> Box option \<Rightarrow> bool" where
  "Box_ne self other = (Box_box_cmp self other \<noteq> 0)"

text \<open>
  The four additions of \<open>__hash__\<close>. \<open>x & 0xFF\<close> is \<open>x AND 255\<close> and \<open>v << k\<close> is
  \<open>push_bit k v\<close>, on unbounded two's-complement integers as in Python.
\<close>

definition position_hash :: "rect \<Rightarrow> int" where
  "position_hash p =
     0 + push_bit 0 (fst (fst p) AND 255)
       + push_bit 8 (snd (fst p) AND 255)
       + push_bit 16 (fst (snd p) AND 255)
       + push_bit 24 (snd (snd p) AND 255)"

text \<open>
  \<open>Box.__hash__\<close>. The builtin \<open>hash\<close> on strings differs between interpreters and runs, so
  it is the parameter \<open>hash\<close>.
\<close>

definition Box_hash :: "(string \<Rightarrow> int) \<Rightarrow> Box \<Rightarrow> int" where
  "Box_hash hash self =
     (position_hash (Box.position self) XOR hash (content self)) XOR hash (content self)"

text \<open>\<open>LineBox.__get_content\<close>, the getter of the property \<open>content\<close>.\<close>

definition LineBox_get_content :: "LineBox \<Rightarrow> string" where
  "LineBox_get_content self =
     py_strip (foldl (\<lambda>txt box. txt @ (content box @ to_unicode '' ''))
                     (to_unicode '''') (word_boxes self))"

text \<open>
  \<open>content = property(__get_content)\<close> has a getter only: an assignment to
  \<open>line.content\<close> raises \<open>AttributeError\<close> and leaves the object as it was.
\<close>

definition LineBox_set_content :: "LineBox \<Rightarrow> string \<Rightarrow> py_error + LineBox" where
  "LineBox_set_content self v = Inl AttributeError"

definition LineBox_box_cmp :: "LineBox \<Rightarrow> LineBox option \<Rightarrow> int" where
  "LineBox_box_cmp self other =
     (case other of
        None \<Rightarrow> - 1
      | Some b \<Rightarrow> cmp_pairs (cmp_keys (LineBox.position self) (LineBox.position b)))"

definition LineBox_lt :: "LineBox \<Rightarrow> LineBox option \<Rightarrow> bool" where
  "LineBox_lt self other = (LineBox_box_cmp self other < 0)"

definition LineBox_gt :: "LineBox \<Rightarrow> LineBox option \<Rightarrow> bool" where
  "LineBox_gt self other = (LineBox_box_cmp self other > 0)"

definition LineBox_eq :: "LineBox \<Rightarrow> LineBox option \<Rightarrow> bool" where
  "LineBox_eq self other = (LineBox_box_cmp self other = 0)"

definition LineBox_le :: "LineBox \<Rightarrow> LineBox option \<Rightarrow> bool" where
  "LineBox_le self other = (LineBox_box_cmp self other \<le> 0)"

definition LineBox_ge :: "LineBox \<Rightarrow> LineBox option \<Rightarrow> bool" where
  "LineBox_ge self other = (LineBox_box_cmp self other \<ge> 0)"

definition LineBox_ne :: "LineBox \<Rightarrow> LineBox option \<Rightarrow> bool" where
  "LineBox_ne self other = (LineBox_box_cmp self other \<noteq> 0)"

definition LineBox_hash :: "(string \<Rightarrow> int) \<Rightarrow> LineBox \<Rightarrow> int" where
  "LineBox_hash hash self =
     (let content = LineBox_get_content self
      in (position_hash (LineBox.position self) XOR hash content) XOR hash content)"

section \<open>Markup documents as handler calls\<close>

text \<open>
  \<open>read_file\<close> passes the text of a document to \<open>HTMLParser.feed\<close>, which scans it and calls
  \<open>handle_starttag(tag, attrs)\<close>, \<open>handle_endtag(tag)\<close> and \<open>handle_data(data)\<close> of the parser
  object, in document order. The scanner belongs to Python's library; the parsers of
  \<open>builders.py\<close> are the three handlers. A document is therefore kept as the sequence of
  handler calls it gives rise to. An attribute written without a value has the value \<open>None\<close>.
  (Comments, declarations and processing instructions reach handlers that \<open>builders.py\<close>
  leaves as the no-ops of the library; they are not events here.)
\<close>

type_synonym attrs = "(string \<times> string option) list"

datatype event = StartTag string attrs | EndTag string | Data string

text \<open>\<open>int(piece[i])\<close>\<close>

definition int_at :: "string list \<Rightarrow> nat \<Rightarrow> py_error + int" where
  "int_at xs i = (case py_index xs i of Inl e \<Rightarrow> Inl e | Inr t \<Rightarrow> py_int t)"

section \<open>\<open>_WordHTMLParser\<close>: the word-tag dialect\<close>

record WordHTMLParser =
  tag_types :: "string list"
  current_box_position :: "rect option"
  current_box_text :: "string option"
  current_box_confidence :: "int option"
  boxes :: "Box list"
  current_line_position :: "rect option"
  current_line_content :: "Box list"
  lines :: "LineBox list"

definition WordHTMLParser_init :: WordHTMLParser where
  "WordHTMLParser_init =
     \<lparr>tag_types = [], current_box_position = None, current_box_text = None,
      current_box_confidence = None, WordHTMLParser.boxes = [],
      current_line_position = None, current_line_content = [], lines = []\<rparr>"

text \<open>The loop of \<open>__parse_confidence\<close> over \<open>title.split("; ")\<close>.\<close>

fun parse_confidence_pieces :: "string list \<Rightarrow> py_error + int" where
  "parse_confidence_pieces [] = Inr 0"
| "parse_confidence_pieces (piece # rest) =
     (let piece = py_strip piece
      in if \<not> py_startswith piece ''x_wconf'' then parse_confidence_pieces rest
         else (case py_index (py_split piece '' '') 1 of
                 Inl e \<Rightarrow> Inl e
               | Inr conf \<Rightarrow> py_int conf))"

definition parse_confidence :: "string \<Rightarrow> py_error + int" where
  "parse_confidence title = parse_confidence_pieces (py_split title ''; '')"

text \<open>
  The loop of \<open>__parse_position\<close>; the four conversions run from left to right, and the
  \<open>raise\<close> after the loop is the empty list's case.
\<close>

fun parse_position_pieces :: "string \<Rightarrow> string list \<Rightarrow> py_error + rect" where
  "parse_position_pieces title [] = Inl (Exception (''Invalid hocr position: '' @ title))"
| "parse_position_pieces title (piece # rest) =
     (let piece = py_strip piece
      in if \<not> py_startswith piece ''bbox'' then parse_position_pieces title rest
         else (let piece = py_split piece '' ''
               in case int_at piece 1 of Inl e \<Rightarrow> Inl e | Inr a \<Rightarrow>
                  (case int_at piece 2 of Inl e \<Rightarrow> Inl e | Inr b \<Rightarrow>
                  (case int_at piece 3 of Inl e \<Rightarrow> Inl e | Inr c \<Rightarrow>
                  (case int_at piece 4 of Inl e \<Rightarrow> Inl e | Inr d \<Rightarrow>
                     Inr ((a, b), (c, d)))))))"

definition parse_position :: "string \<Rightarrow> py_error + rect" where
  "parse_position title = parse_position_pieces title (py_split title ''; '')"

text \<open>
  The loop of \<open>handle_starttag\<close> over \<open>attrs\<close>: the pair is \<open>(position, tag_type)\<close>, both
  \<open>None\<close> at the start; a later \<open>title\<close> or \<open>class\<close> replaces an earlier one. (The
  source's \<open>position\<close>, which first holds the title string, is \<open>title\<close> here.)
\<close>

definition scan_attrs :: "attrs \<Rightarrow> string option \<times> string option" where
  "scan_attrs attrs =
     foldl (\<lambda>(title, tag_type) attr.
              (if fst attr = ''title'' then snd attr else title,
               if fst attr = ''class'' then snd attr else tag_type))
           (None, None) attrs"

definition WordHTMLParser_handle_starttag ::
    "WordHTMLParser \<Rightarrow> string \<Rightarrow> attrs \<Rightarrow> py_error + WordHTMLParser" where
  "WordHTMLParser_handle_starttag self tag attrs =
     (if tag \<noteq> ''span'' then Inr self
      else case scan_attrs attrs of
        (None, _) \<Rightarrow> Inr self
      | (Some _, None) \<Rightarrow> Inr self
      | (Some title, Some tag_type) \<Rightarrow>
          if tag_type = ''ocr_word'' \<or> tag_type = ''ocrx_word'' then
            (case parse_confidence title of
               Inl e \<Rightarrow> Inr (self\<lparr>tag_types := tag_types self @ [''ignore'']\<rparr>)
             | Inr conf \<Rightarrow>
                 (case parse_position title of
                    Inl e \<Rightarrow> Inr (self\<lparr>tag_types := tag_types self @ [''ignore'']\<rparr>)
                  | Inr pos \<Rightarrow>
                      Inr (self\<lparr>current_box_confidence := Some conf,
                                current_box_position := Some pos,
                                current_box_text := Some (to_unicode ''''),
                                tag_types := tag_types self @ [tag_type]\<rparr>)))
          else if tag_type = ''ocr_line'' then
            (case parse_position title of
               Inl e \<Rightarrow> Inl e
             | Inr pos \<Rightarrow>
                 Inr (self\<lparr>current_line_position := Some pos,
                           current_line_content := [],
                           tag_types := tag_types self @ [tag_type]\<rparr>))
          else Inr (self\<lparr>tag_types := tag_types self @ [tag_type]\<rparr>))"

definition WordHTMLParser_handle_data :: "WordHTMLParser \<Rightarrow> string \<Rightarrow> WordHTMLParser" where
  "WordHTMLParser_handle_data self data =
     (case current_box_text self of
        None \<Rightarrow> self
      | Some text \<Rightarrow> self\<lparr>current_box_text := Some (text @ to_unicode data)\<rparr>)"

text \<open>
  \<open>handle_endtag\<close>. \<open>pop()\<close> on an empty stack raises \<open>IndexError\<close>. A word is closed with
  the position and confidence stored by the \<open>handle_starttag\<close> that set the text, and a
  line with the position stored when \<open>ocr_line\<close> was pushed; the branches without them
  cannot be reached from \<open>WordHTMLParser_init\<close> (lemma \<open>word_parser_invariant_feed\<close>
  below) and are given as \<open>TypeError\<close>.
\<close>

definition WordHTMLParser_handle_endtag ::
    "WordHTMLParser \<Rightarrow> string \<Rightarrow> py_error + WordHTMLParser" where
  "WordHTMLParser_handle_endtag self tag =
     (if tag \<noteq> ''span'' then Inr self
      else if tag_types self = [] then Inl IndexError
      else
        (let tag_type = last (tag_types self);
             self = self\<lparr>tag_types := butlast (tag_types self)\<rparr>
         in if tag_type = ''ocr_word'' \<or> tag_type = ''ocrx_word'' then
              (case current_box_text self of
                 None \<Rightarrow> Inr self
               | Some text \<Rightarrow>
                   (case (current_box_position self, current_box_confidence self) of
                      (Some box_position, Some conf) \<Rightarrow>
                        (let box = Box_init text box_position conf
                         in Inr (self\<lparr>WordHTMLParser.boxes := WordHTMLParser.boxes self @ [box],
                                     current_line_content := current_line_content self @ [box],
                                     current_box_text := None\<rparr>))
                    | _ \<Rightarrow> Inl TypeError))
            else if tag_type = ''ocr_line'' then
              (case current_line_position self of
                 Some line_position \<Rightarrow>
                   (let line = LineBox_init (current_line_content self) line_position
                    in Inr (self\<lparr>lines := lines self @ [line],
                                current_line_content := []\<rparr>))
               | None \<Rightarrow> Inl TypeError)
            else Inr self))"

fun WordHTMLParser_handle :: "WordHTMLParser \<Rightarrow> event \<Rightarrow> py_error + WordHTMLParser" where
  "WordHTMLParser_handle self (StartTag tag attrs) = WordHTMLParser_handle_starttag self tag attrs"
| "WordHTMLParser_handle self (EndTag tag) = WordHTMLParser_handle_endtag self tag"
| "WordHTMLParser_handle self (Data data) = Inr (WordHTMLParser_handle_data self data)"

text \<open>\<open>parser.feed(html_str)\<close>: the calls in order; an exception ends the scan.\<close>

fun WordHTMLParser_feed :: "WordHTMLParser \<Rightarrow> event list \<Rightarrow> py_error + WordHTMLParser" where
  "WordHTMLParser_feed self [] = Inr self"
| "WordHTMLParser_feed self (ev # evs) =
     (case WordHTMLParser_handle self ev of
        Inl e \<Rightarrow> Inl e
      | Inr self' \<Rightarrow> WordHTMLParser_feed self' evs)"

section \<open>\<open>_LineHTMLParser\<close>: the character-position dialect\<close>

record LineHTMLParser =
  boxes :: "Box list"
  line_text :: "string option"
  char_positions :: "string list option"

definition LineHTMLParser_init :: LineHTMLParser where
  "LineHTMLParser_init = \<lparr>LineHTMLParser.boxes = [], line_text = None, char_positions = None\<rparr>"

definition TAG_TYPE_CONTENT :: int where
  "TAG_TYPE_CONTENT = 0"

definition TAG_TYPE_POSITIONS :: int where
  "TAG_TYPE_POSITIONS = 1"

text \<open>The first loop of \<open>handle_starttag\<close> over \<open>attrs\<close>, from \<open>tag_type = -1\<close>.\<close>

definition scan_tag_type :: "attrs \<Rightarrow> int" where
  "scan_tag_type attrs =
     foldl (\<lambda>tag_type attr.
              if fst attr = ''class'' then
                (if snd attr = Some ''ocr_line'' then TAG_TYPE_CONTENT
                 else if snd attr = Some ''ocr_cinfo'' then TAG_TYPE_POSITIONS
                 else tag_type)
              else tag_type)
           (- 1) attrs"

text \<open>
  The second loop: every \<open>title\<close> attribute replaces the coordinate list by
  \<open>attr[1].split(" ")\<close>; \<open>None.split\<close> raises \<open>AttributeError\<close>.
\<close>

fun scan_titles :: "string list option \<Rightarrow> attrs \<Rightarrow> py_error + string list option" where
  "scan_titles cp [] = Inr cp"
| "scan_titles cp (attr # rest) =
     (if fst attr = ''title'' then
        (case snd attr of
           None \<Rightarrow> Inl AttributeError
         | Some v \<Rightarrow> scan_titles (Some (py_split v '' '')) rest)
      else scan_titles cp rest)"

text \<open>
  \<open>handle_starttag\<close>. After the titles, \<open>[1:]\<close> drops the first token (\<open>None[1:]\<close> is a
  \<open>TypeError\<close>), \<open>[-1]\<close> of an empty list is an \<open>IndexError\<close>, the statement
  \<open>self.__char_positions[:-1]\<close> computes a slice and assigns it nowhere, and the
  \<open>remove\<close> loop deletes every \<open>"-1"\<close>.
\<close>

definition LineHTMLParser_handle_starttag ::
    "LineHTMLParser \<Rightarrow> string \<Rightarrow> attrs \<Rightarrow> py_error + LineHTMLParser" where
  "LineHTMLParser_handle_starttag self tag attrs =
     (if tag \<noteq> ''span'' then Inr self
      else
        (let tag_type = scan_tag_type attrs
         in if tag_type = TAG_TYPE_CONTENT then
              Inr (self\<lparr>line_text := Some (to_unicode ''''), char_positions := Some []\<rparr>)
            else if tag_type = TAG_TYPE_POSITIONS then
              (case scan_titles (char_positions self) attrs of
                 Inl e \<Rightarrow> Inl e
               | Inr None \<Rightarrow> Inl TypeError
               | Inr (Some cp) \<Rightarrow>
                   (let cp = drop 1 cp
                    in case py_last cp of
                         Inl e \<Rightarrow> Inl e
                       | Inr l \<Rightarrow>
                           (let unused = (if l = '''' then butlast cp else [])
                            in Inr (self\<lparr>char_positions := Some (remove_all ''-1'' cp)\<rparr>))))
            else Inr self))"

definition LineHTMLParser_handle_data :: "LineHTMLParser \<Rightarrow> string \<Rightarrow> LineHTMLParser" where
  "LineHTMLParser_handle_data self data =
     (case line_text self of
        None \<Rightarrow> self
      | Some text \<Rightarrow> self\<lparr>line_text := Some (text @ data)\<rparr>)"

text \<open>\<open>[int(positions[x]) for x in range(k, n, 4)]\<close>\<close>

definition coords :: "string list \<Rightarrow> nat \<Rightarrow> nat \<Rightarrow> py_error + int list" where
  "coords positions k n = sequence_err (map (int_at positions) (py_range k n 4))"

text \<open>\<open>min([...])\<close> and \<open>max([...])\<close> of such a comprehension.\<close>

definition min_coords :: "string list \<Rightarrow> nat \<Rightarrow> nat \<Rightarrow> py_error + int" where
  "min_coords positions k n =
     (case coords positions k n of Inl e \<Rightarrow> Inl e | Inr vs \<Rightarrow> py_min vs)"

definition max_coords :: "string list \<Rightarrow> nat \<Rightarrow> nat \<Rightarrow> py_error + int" where
  "max_coords positions k n =
     (case coords positions k n of Inl e \<Rightarrow> Inl e | Inr vs \<Rightarrow> py_max vs)"

text \<open>
  The loop of \<open>handle_endtag\<close> over the words of the line. Slicing \<open>None\<close> is a
  \<open>TypeError\<close>; a slice of a list never raises, it is cut at the end of the list.
\<close>

fun words_loop :: "LineHTMLParser \<Rightarrow> string list \<Rightarrow> py_error + LineHTMLParser" where
  "words_loop self [] = Inr self"
| "words_loop self (word # words) =
     (if word = '''' then words_loop self words
      else case char_positions self of
        None \<Rightarrow> Inl TypeError
      | Some cp \<Rightarrow>
          (let positions = take (4 * length word) cp;
               self = self\<lparr>char_positions := Some (drop (4 * length word) cp)\<rparr>
           in case min_coords positions 0 (4 * length word) of Inl e \<Rightarrow> Inl e | Inr left_pos \<Rightarrow>
              (case min_coords positions 1 (4 * length word) of Inl e \<Rightarrow> Inl e | Inr top_pos \<Rightarrow>
              (case max_coords positions 2 (4 * length word) of Inl e \<Rightarrow> Inl e | Inr right_pos \<Rightarrow>
              (case max_coords positions 3 (4 * length word) of Inl e \<Rightarrow> Inl e | Inr bottom_pos \<Rightarrow>
                 (let box_pos = ((left_pos, top_pos), (right_pos, bottom_pos));
                      box = Box_init word box_pos 0
                  in words_loop
                       (self\<lparr>LineHTMLParser.boxes := LineHTMLParser.boxes self @ [box]\<rparr>)
                       words))))))"

text \<open>\<open>handle_endtag\<close>; it does not look at the tag's name.\<close>

definition LineHTMLParser_handle_endtag ::
    "LineHTMLParser \<Rightarrow> string \<Rightarrow> py_error + LineHTMLParser" where
  "LineHTMLParser_handle_endtag self tag =
     (case line_text self of
        None \<Rightarrow> Inr self
      | Some text \<Rightarrow>
          if char_positions self = Some [] then Inr self
          else (let words = py_split text '' ''
                in case words_loop self words of
                     Inl e \<Rightarrow> Inl e
                   | Inr self' \<Rightarrow> Inr (self'\<lparr>line_text := None\<rparr>)))"

fun LineHTMLParser_handle :: "LineHTMLParser \<Rightarrow> event \<Rightarrow> py_error + LineHTMLParser" where
  "LineHTMLParser_handle self (StartTag tag attrs) = LineHTMLParser_handle_starttag self tag attrs"
| "LineHTMLParser_handle self (EndTag tag) = LineHTMLParser_handle_endtag self tag"
| "LineHTMLParser_handle self (Data data) = Inr (LineHTMLParser_handle_data self data)"

fun LineHTMLParser_feed :: "LineHTMLParser \<Rightarrow> event list \<Rightarrow> py_error + LineHTMLParser" where
  "LineHTMLParser_feed self [] = Inr self"
| "LineHTMLParser_feed self (ev # evs) =
     (case LineHTMLParser_handle self ev of
        Inl e \<Rightarrow> Inl e
      | Inr self' \<Rightarrow> LineHTMLParser_feed self' evs)"

section \<open>The builders: \<open>read_file\<close> and \<open>write_file\<close>\<close>

text \<open>
  The trim both \<open>read_file\<close>s apply to \<open>p.boxes\<close>, a non-empty list:
  \<open>if last_box.content == "": p.boxes.pop(-1)\<close>.
\<close>

definition pop_empty_last :: "Box list \<Rightarrow> Box list" where
  "pop_empty_last bs = (if content (last bs) = to_unicode '''' then butlast bs else bs)"

text \<open>
  \<open>WordBoxBuilder.read_file\<close>: the loop over the two parsers, each fed the whole document;
  the first with a non-empty \<open>boxes\<close> returns, and \<open>[]\<close> is returned after the loop.
\<close>

definition WordBoxBuilder_read_file :: "event list \<Rightarrow> py_error + Box list" where
  "WordBoxBuilder_read_file html =
     (case WordHTMLParser_feed WordHTMLParser_init html of
        Inl e \<Rightarrow> Inl e
      | Inr p \<Rightarrow>
          if length (WordHTMLParser.boxes p) > 0 then Inr (pop_empty_last (WordHTMLParser.boxes p))
          else (case LineHTMLParser_feed LineHTMLParser_init html of
                  Inl e \<Rightarrow> Inl e
                | Inr q \<Rightarrow>
                    if length (LineHTMLParser.boxes q) > 0
                    then Inr (pop_empty_last (LineHTMLParser.boxes q))
                    else Inr []))"

text \<open>
  \<open>LineBoxBuilder.read_file\<close>: the same loop; what is returned is the parser's conversion,
  \<open>parser.lines\<close> for the first parser and one \<open>LineBox\<close> per box for the second. The \<open>pop\<close>
  changes \<open>parser.boxes\<close>; \<open>parser.lines\<close> is another list.
\<close>

definition LineBoxBuilder_read_file :: "event list \<Rightarrow> py_error + LineBox list" where
  "LineBoxBuilder_read_file html =
     (case WordHTMLParser_feed WordHTMLParser_init html of
        Inl e \<Rightarrow> Inl e
      | Inr p \<Rightarrow>
          if length (WordHTMLParser.boxes p) > 0 then
            (let p = p\<lparr>WordHTMLParser.boxes := pop_empty_last (WordHTMLParser.boxes p)\<rparr>
             in Inr (lines p))
          else (case LineHTMLParser_feed LineHTMLParser_init html of
                  Inl e \<Rightarrow> Inl e
                | Inr q \<Rightarrow>
                    if length (LineHTMLParser.boxes q) > 0 then
                      (let q = q\<lparr>LineHTMLParser.boxes := pop_empty_last (LineHTMLParser.boxes q)\<rparr>
                       in Inr (map (\<lambda>box. LineBox_init [box] (Box.position box))
                                 (LineHTMLParser.boxes q)))
                    else Inr []))"

text \<open>The elements and text nodes \<open>get_xml_tag\<close> builds with \<open>xml.dom.minidom\<close>.\<close>

datatype xml = Element string "(string \<times> string) list" "xml list" | Text string

definition Box_get_xml_tag :: "Box \<Rightarrow> xml" where
  "Box_get_xml_tag self =
     Element ''span''
       [(''class'', ''ocrx_word''),
        (''title'', ''bbox '' @ fmt_d (fst (fst (Box.position self))) @ '' ''
                   @ fmt_d (snd (fst (Box.position self))) @ '' ''
                   @ fmt_d (fst (snd (Box.position self))) @ '' ''
                   @ fmt_d (snd (snd (Box.position self))) @ ''; x_wconf ''
                   @ fmt_d (confidence self))]
       [Text (content self)]"

text \<open>
  The handler calls for the text \<open>toxml()\<close> writes for a node: the start tag with its
  attributes, the children, the end tag. A text node arrives as one \<open>handle_data\<close> call
  with the node's text: \<open>toxml\<close> escapes \<open>&\<close>, \<open><\<close> and \<open>>\<close> and the scanner of
  \<open>html.parser\<close> undoes it before the call (\<open>convert_charrefs\<close>, its default). An empty text
  node leaves nothing in the text. Both steps are Python's library.
\<close>

fun xml_events :: "xml \<Rightarrow> event list" where
  "xml_events (Text d) = (if d = '''' then [] else [Data d])"
| "xml_events (Element tag as children) =
     StartTag tag (map (\<lambda>(k, v). (k, Some v)) as) # concat (map xml_events children) @ [EndTag tag]"

text \<open>The handler calls for \<open>_XHTML_HEADER\<close>; the \<open>DOCTYPE\<close> declaration is no event.\<close>

definition XHTML_HEADER :: "event list" where
  "XHTML_HEADER =
     [Data [CHR 0x0A],
      StartTag ''html'' [(''xmlns'', Some ''http://www.w3.org/1999/xhtml'')], Data [CHR 0x0A],
      StartTag ''head'' [], Data [CHR 0x0A, CHR 0x09],
      StartTag ''meta'' [(''http-equiv'', Some ''content-type''),
                         (''content'', Some ''text/html; charset=utf-8'')],
      EndTag ''meta'', Data [CHR 0x0A, CHR 0x09],
      StartTag ''title'' [], Data ''OCR output'', EndTag ''title'', Data [CHR 0x0A],
      EndTag ''head'', Data [CHR 0x0A]]"

text \<open>\<open>WordBoxBuilder.write_file\<close>: the header, \<open><body>\<close>, one \<open><p>\<close> per box, the closing tags.\<close>

definition WordBoxBuilder_write_file :: "Box list \<Rightarrow> event list" where
  "WordBoxBuilder_write_file bs =
     XHTML_HEADER @ [StartTag ''body'' [], Data [CHR 0x0A]]
     @ concat (map (\<lambda>box. [StartTag ''p'' []] @ xml_events (Box_get_xml_tag box)
                           @ [EndTag ''p'', Data [CHR 0x0A]]) bs)
     @ [EndTag ''body'', Data [CHR 0x0A], EndTag ''html'', Data [CHR 0x0A]]"

section \<open>The spec's wording, for comparison with the code\<close>

text \<open>
  The spec's 4-key tuple \<open>(top.y, bottom.y, top.x, bottom.x)\<close> of a rectangle; tuples are
  ordered lexicographically.
\<close>

definition key4 :: "rect \<Rightarrow> int \<times> int \<times> int \<times> int" where
  "key4 p = (snd (fst p), snd (snd p), fst (fst p), fst (snd p))"

text \<open>
  The spec's hash value: each coordinate reduced to one byte, the four bytes placed side
  by side in a 32-bit value, \<open>x0\<close> lowest.
\<close>

definition pack_bytes :: "rect \<Rightarrow> int" where
  "pack_bytes p =
     fst (fst p) mod 256 + 256 * (snd (fst p) mod 256) + 65536 * (fst (snd p) mod 256)
       + 16777216 * (snd (snd p) mod 256)"

text \<open>\<open>sep.join(xs)\<close>, for the spec's "space-joined".\<close>

fun py_join :: "string \<Rightarrow> string list \<Rightarrow> string" where
  "py_join sep [] = []"
| "py_join sep [x] = x"
| "py_join sep (x # y # r) = x @ sep @ py_join sep (y # r)"

text \<open>
  A title "lacks a recognizable \<open>bbox\<close> token" when none of its pieces between \<open>"; "\<close>
  begins, once stripped, with \<open>bbox\<close>.
\<close>

definition lacks_bbox :: "string \<Rightarrow> bool" where
  "lacks_bbox title =
     list_all (\<lambda>piece. \<not> py_startswith (py_strip piece) ''bbox'') (py_split title ''; '')"

text \<open>
  A coordinate quadruple \<open>(x1, y1, x2, y2)\<close> of one character, the four numbers it
  contributes to the coordinate list, and the spec's bounding box of a word: the least
  \<open>x1\<close> and \<open>y1\<close> and the greatest \<open>x2\<close> and \<open>y2\<close> of its characters.
\<close>

definition quad_x1 :: "int \<times> int \<times> int \<times> int \<Rightarrow> int" where
  "quad_x1 q = fst q"

definition quad_y1 :: "int \<times> int \<times> int \<times> int \<Rightarrow> int" where
  "quad_y1 q = fst (snd q)"

definition quad_x2 :: "int \<times> int \<times> int \<times> int \<Rightarrow> int" where
  "quad_x2 q = fst (snd (snd q))"

definition quad_y2 :: "int \<times> int \<times> int \<times> int \<Rightarrow> int" where
  "quad_y2 q = snd (snd (snd q))"

definition quad_tokens :: "int \<times> int \<times> int \<times> int \<Rightarrow> int list" where
  "quad_tokens q = [quad_x1 q, quad_y1 q, quad_x2 q, quad_y2 q]"

definition word_bbox :: "(int \<times> int \<times> int \<times> int) list \<Rightarrow> rect" where
  "word_bbox qs =
     ((Min (set (map quad_x1 qs)), Min (set (map quad_y1 qs))),
      (Max (set (map quad_x2 qs)), Max (set (map quad_y2 qs))))"

definition word_box :: "string \<Rightarrow> (int \<times> int \<times> int \<times> int) list \<Rightarrow> Box" where
  "word_box w qs = \<lparr>content = w, Box.position = word_bbox qs, confidence = 0\<rparr>"

text \<open>The trailing-empty-region trim rule, on any collection of boxes.\<close>

definition trim_trailing_empty :: "Box list \<Rightarrow> Box list" where
  "trim_trailing_empty bs = (if bs \<noteq> [] \<and> content (last bs) = '''' then butlast bs else bs)"

text \<open>
  The first piece of the title \<open>get_xml_tag\<close> writes, and the handler calls one box
  contributes to the document \<open>write_file\<close> writes.
\<close>

definition bbox_piece :: "rect \<Rightarrow> string" where
  "bbox_piece p = ''bbox '' @ fmt_d (fst (fst p)) @ '' '' @ fmt_d (snd (fst p)) @ '' ''
     @ fmt_d (fst (snd p)) @ '' '' @ fmt_d (snd (snd p))"

definition box_events :: "Box \<Rightarrow> event list" where
  "box_events box =
     [StartTag ''p'' []] @ xml_events (Box_get_xml_tag box) @ [EndTag ''p'', Data [CHR 0x0A]]"

text \<open>
  What holds of every state \<open>_WordHTMLParser\<close> reaches: an open text comes with a position
  and a confidence, and \<open>ocr_line\<close> on the stack comes with a line position.
\<close>

definition word_parser_invariant :: "WordHTMLParser \<Rightarrow> bool" where
  "word_parser_invariant s =
     ((current_box_text s = None \<or>
         (current_box_position s \<noteq> None \<and> current_box_confidence s \<noteq> None)) \<and>
      (''ocr_line'' \<notin> set (tag_types s) \<or> current_line_position s \<noteq> None))"

section \<open>Ordering, equality and hashing of regions\<close>

lemma cmp_keys_lt: "cmp_pairs (cmp_keys p q) < 0 \<longleftrightarrow> key4 p < key4 q"
  by (auto simp: cmp_keys_def key4_def less_prod_def)

lemma cmp_keys_eq: "cmp_pairs (cmp_keys p q) = 0 \<longleftrightarrow> key4 p = key4 q"
  by (auto simp: cmp_keys_def key4_def)

lemma cmp_keys_gt: "cmp_pairs (cmp_keys p q) > 0 \<longleftrightarrow> key4 q < key4 p"
  by (auto simp: cmp_keys_def key4_def less_prod_def)

lemma cmp_keys_same: "cmp_pairs (cmp_keys p p) = 0"
  by (simp add: cmp_keys_def)

text \<open>
  C1 (as the code has it). \<open>__box_cmp\<close> answers \<open>-1\<close> for \<open>None\<close>, and \<open>__lt__\<close> tests
  \<open>cmp < 0\<close>: for every \<open>Box\<close> and every \<open>LineBox\<close>, \<open>region < None\<close> is true,
  \<open>region > None\<close> is false, \<open>region != None\<close> is true and \<open>region == None\<close> is false.
\<close>

theorem region_against_None:
  "Box_lt b None \<and> \<not> Box_gt b None \<and> Box_ne b None \<and> \<not> Box_eq b None \<and>
   LineBox_lt l None \<and> \<not> LineBox_gt l None \<and> LineBox_ne l None \<and> \<not> LineBox_eq l None"
  by (simp add: Box_lt_def Box_gt_def Box_ne_def Box_eq_def Box_box_cmp_def
      LineBox_lt_def LineBox_gt_def LineBox_ne_def LineBox_eq_def LineBox_box_cmp_def)

text \<open>
  C1 as the spec words it (\<open>region < None\<close> false, \<open>region > None\<close> true, \<open>region != None\<close>
  true) fails for the box \<open>Box("a", ((0, 0), (1, 1)))\<close>.
\<close>

theorem region_against_None_counterexample:
  "\<not> (\<not> Box_lt \<lparr>content = ''a'', Box.position = ((0, 0), (1, 1)), confidence = 0\<rparr> None \<and>
      Box_gt \<lparr>content = ''a'', Box.position = ((0, 0), (1, 1)), confidence = 0\<rparr> None \<and>
      Box_ne \<lparr>content = ''a'', Box.position = ((0, 0), (1, 1)), confidence = 0\<rparr> None)"
  by (simp add: Box_lt_def Box_gt_def Box_ne_def Box_box_cmp_def)

text \<open>
  C2. For two regions of the same class, neither \<open>None\<close>, each of \<open>a < b\<close>, \<open>a == b\<close>,
  \<open>a > b\<close>, \<open>a <= b\<close>, \<open>a >= b\<close> and \<open>a != b\<close> is the same comparison of the tuples
  \<open>(top.y, bottom.y, top.x, bottom.x)\<close> in lexicographic order; of \<open>a < b\<close>, \<open>a == b\<close> and
  \<open>a > b\<close> at least one holds and no two hold together.
\<close>

theorem region_order_lexicographic:
  "(Box_lt a (Some b) = (key4 (Box.position a) < key4 (Box.position b))) \<and>
   (Box_eq a (Some b) = (key4 (Box.position a) = key4 (Box.position b))) \<and>
   (Box_gt a (Some b) = (key4 (Box.position b) < key4 (Box.position a))) \<and>
   (Box_le a (Some b) = (key4 (Box.position a) \<le> key4 (Box.position b))) \<and>
   (Box_ge a (Some b) = (key4 (Box.position b) \<le> key4 (Box.position a))) \<and>
   (Box_ne a (Some b) = (key4 (Box.position a) \<noteq> key4 (Box.position b))) \<and>
   (Box_lt a (Some b) \<or> Box_eq a (Some b) \<or> Box_gt a (Some b)) \<and>
   \<not> (Box_lt a (Some b) \<and> Box_eq a (Some b)) \<and>
   \<not> (Box_lt a (Some b) \<and> Box_gt a (Some b)) \<and>
   \<not> (Box_eq a (Some b) \<and> Box_gt a (Some b)) \<and>
   (LineBox_lt l (Some m) = (key4 (LineBox.position l) < key4 (LineBox.position m))) \<and>
   (LineBox_eq l (Some m) = (key4 (LineBox.position l) = key4 (LineBox.position m))) \<and>
   (LineBox_gt l (Some m) = (key4 (LineBox.position m) < key4 (LineBox.position l))) \<and>
   (LineBox_le l (Some m) = (key4 (LineBox.position l) \<le> key4 (LineBox.position m))) \<and>
   (LineBox_ge l (Some m) = (key4 (LineBox.position m) \<le> key4 (LineBox.position l))) \<and>
   (LineBox_ne l (Some m) = (key4 (LineBox.position l) \<noteq> key4 (LineBox.position m))) \<and>
   (LineBox_lt l (Some m) \<or> LineBox_eq l (Some m) \<or> LineBox_gt l (Some m)) \<and>
   \<not> (LineBox_lt l (Some m) \<and> LineBox_eq l (Some m)) \<and>
   \<not> (LineBox_lt l (Some m) \<and> LineBox_gt l (Some m)) \<and>
   \<not> (LineBox_eq l (Some m) \<and> LineBox_gt l (Some m))"
proof -
  have le: "(c \<le> 0) = (c < 0 \<or> c = 0)" and ge: "(0 \<le> c) = (0 < c \<or> c = 0)" for c :: int
    by auto
  have box: "(Box_lt a (Some b) = (key4 (Box.position a) < key4 (Box.position b))) \<and>
     (Box_eq a (Some b) = (key4 (Box.position a) = key4 (Box.position b))) \<and>
     (Box_gt a (Some b) = (key4 (Box.position b) < key4 (Box.position a)))"
    by (simp add: Box_lt_def Box_eq_def Box_gt_def Box_box_cmp_def
        cmp_keys_lt cmp_keys_eq cmp_keys_gt)
  have box2: "(Box_le a (Some b) = (key4 (Box.position a) \<le> key4 (Box.position b))) \<and>
     (Box_ge a (Some b) = (key4 (Box.position b) \<le> key4 (Box.position a))) \<and>
     (Box_ne a (Some b) = (key4 (Box.position a) \<noteq> key4 (Box.position b)))"
    unfolding Box_le_def Box_ge_def Box_ne_def Box_box_cmp_def option.case
    by (simp only: le ge cmp_keys_lt cmp_keys_eq cmp_keys_gt) auto
  have line: "(LineBox_lt l (Some m) = (key4 (LineBox.position l) < key4 (LineBox.position m))) \<and>
     (LineBox_eq l (Some m) = (key4 (LineBox.position l) = key4 (LineBox.position m))) \<and>
     (LineBox_gt l (Some m) = (key4 (LineBox.position m) < key4 (LineBox.position l)))"
    by (simp add: LineBox_lt_def LineBox_eq_def LineBox_gt_def LineBox_box_cmp_def
        cmp_keys_lt cmp_keys_eq cmp_keys_gt)
  have line2: "(LineBox_le l (Some m) = (key4 (LineBox.position l) \<le> key4 (LineBox.position m))) \<and>
     (LineBox_ge l (Some m) = (key4 (LineBox.position m) \<le> key4 (LineBox.position l))) \<and>
     (LineBox_ne l (Some m) = (key4 (LineBox.position l) \<noteq> key4 (LineBox.position m)))"
    unfolding LineBox_le_def LineBox_ge_def LineBox_ne_def LineBox_box_cmp_def option.case
    by (simp only: le ge cmp_keys_lt cmp_keys_eq cmp_keys_gt) auto
  have tri: "(x < y \<or> x = y \<or> y < x) \<and> \<not> (x < y \<and> x = y) \<and> \<not> (x < y \<and> y < x)
      \<and> \<not> (x = y \<and> y < x)" for x y :: "int \<times> int \<times> int \<times> int"
    by auto
  show ?thesis
    using tri[of "key4 (Box.position a)" "key4 (Box.position b)"]
      tri[of "key4 (LineBox.position l)" "key4 (LineBox.position m)"]
    by (simp only: box box2 line line2) simp
qed

lemma and_255_mod: "(x :: int) AND 255 = x mod 256"
proof -
  have "x AND mask 8 = take_bit 8 x"
    by (simp only: take_bit_eq_mask)
  then show ?thesis
    by (simp add: take_bit_eq_mod mask_eq_exp_minus_1)
qed

lemma position_hash_pack: "position_hash p = pack_bytes p"
  by (simp add: position_hash_def pack_bytes_def and_255_mod push_bit_eq_mult)

lemma xor_twice: "((p :: int) XOR h) XOR h = p"
  by (simp add: xor.assoc)

lemma pack_bytes_range: "0 \<le> pack_bytes p \<and> pack_bytes p < 2 ^ 32"
proof -
  have a: "0 \<le> fst (fst p) mod 256 \<and> fst (fst p) mod 256 < 256" by simp
  have b: "0 \<le> snd (fst p) mod 256 \<and> snd (fst p) mod 256 < 256" by simp
  have c: "0 \<le> fst (snd p) mod 256 \<and> fst (snd p) mod 256 < 256" by simp
  have d: "0 \<le> snd (snd p) mod 256 \<and> snd (snd p) mod 256 < 256" by simp
  from a b c d show ?thesis
    unfolding pack_bytes_def by simp
qed

text \<open>
  C3. Two boxes (two line boxes) with the same rectangle are equal under \<open>==\<close> and have
  the same hash, whatever their content and whatever the string hash is: the hash is the
  four coordinates, each reduced modulo 256, packed into the bytes of a value below
  \<open>2 ^ 32\<close>; the content's hash is XORed in twice and cancels.
\<close>

theorem equality_and_hash_geometric:
  assumes "Box.position a = Box.position b" and "LineBox.position l = LineBox.position m"
  shows "Box_eq a (Some b) \<and> Box_hash hash a = Box_hash hash b \<and>
         Box_hash hash a = pack_bytes (Box.position a) \<and>
         LineBox_eq l (Some m) \<and> LineBox_hash hash l = LineBox_hash hash m \<and>
         LineBox_hash hash l = pack_bytes (LineBox.position l) \<and>
         0 \<le> Box_hash hash a \<and> Box_hash hash a < 2 ^ 32 \<and>
         0 \<le> LineBox_hash hash l \<and> LineBox_hash hash l < 2 ^ 32"
  using assms pack_bytes_range[of "Box.position b"] pack_bytes_range[of "LineBox.position m"]
  by (simp add: Box_eq_def Box_box_cmp_def LineBox_eq_def LineBox_box_cmp_def cmp_keys_same
      Box_hash_def LineBox_hash_def xor_twice position_hash_pack Let_def)

theorem equality_and_hash_geometric_witness:
  "Box.position \<lparr>content = ''Hello'', Box.position = ((300, 0), (- 1, 20)), confidence = 90\<rparr>
     = Box.position \<lparr>content = ''World'', Box.position = ((300, 0), (- 1, 20)), confidence = 0\<rparr> \<and>
   LineBox.position \<lparr>word_boxes = [], LineBox.position = ((0, 0), (1, 2))\<rparr>
     = LineBox.position
         \<lparr>word_boxes = [\<lparr>content = ''x'', Box.position = ((0, 0), (1, 2)), confidence = 0\<rparr>],
          LineBox.position = ((0, 0), (1, 2))\<rparr> \<and>
   Box_eq \<lparr>content = ''Hello'', Box.position = ((300, 0), (- 1, 20)), confidence = 90\<rparr>
     (Some \<lparr>content = ''World'', Box.position = ((300, 0), (- 1, 20)), confidence = 0\<rparr>) \<and>
   Box_hash (\<lambda>s. int (length s))
       \<lparr>content = ''Hello'', Box.position = ((300, 0), (- 1, 20)), confidence = 90\<rparr>
     = 352256044 \<and>
   Box_hash (\<lambda>s. int (length s))
       \<lparr>content = ''World'', Box.position = ((300, 0), (- 1, 20)), confidence = 0\<rparr>
     = 352256044 \<and>
   LineBox_hash (\<lambda>s. int (length s))
       \<lparr>word_boxes = [\<lparr>content = ''x'', Box.position = ((0, 0), (1, 2)), confidence = 0\<rparr>],
        LineBox.position = ((0, 0), (1, 2))\<rparr>
     = 33619968"
  using equality_and_hash_geometric
    [of "\<lparr>content = ''Hello'', Box.position = ((300, 0), (- 1, 20)), confidence = 90\<rparr>"
      "\<lparr>content = ''World'', Box.position = ((300, 0), (- 1, 20)), confidence = 0\<rparr>"
      "\<lparr>word_boxes = [], LineBox.position = ((0, 0), (1, 2))\<rparr>"
      "\<lparr>word_boxes = [\<lparr>content = ''x'', Box.position = ((0, 0), (1, 2)), confidence = 0\<rparr>],
         LineBox.position = ((0, 0), (1, 2))\<rparr>" "\<lambda>s. int (length s)"]
  by (simp add: pack_bytes_def)

section \<open>The derived content of a line\<close>

lemma foldl_content:
  "foldl (\<lambda>txt box. txt @ (content box @ sp)) acc ws
     = acc @ concat (map (\<lambda>b. content b @ sp) ws)"
  by (induction ws arbitrary: acc) auto

lemma concat_join: "cs \<noteq> [] \<Longrightarrow> concat (map (\<lambda>c. c @ sep) cs) = py_join sep cs @ sep"
  by (induction sep cs rule: py_join.induct) auto

lemma py_strip_snoc_space: "py_isspace c \<Longrightarrow> py_strip (x @ [c]) = py_strip x"
proof (cases "\<forall>y \<in> set x. py_isspace y")
  case True
  assume "py_isspace c"
  from True have "dropWhile py_isspace x = []"
    by (induction x) auto
  moreover from True \<open>py_isspace c\<close> have "dropWhile py_isspace (x @ [c]) = []"
    by (induction x) auto
  ultimately show ?thesis
    unfolding py_strip_def by (simp only:)
next
  case False
  assume c: "py_isspace c"
  from False have "dropWhile py_isspace (x @ [c]) = dropWhile py_isspace x @ [c]"
    by (auto simp: dropWhile_append1)
  with c show ?thesis by (simp add: py_strip_def)
qed

lemma isspace_space: "py_isspace CHR '' ''"
  by (simp add: py_isspace_def)

text \<open>
  C9. Reading \<open>content\<close> of a line gives the children's contents joined by single spaces
  and stripped; it is a function of the \<open>word_boxes\<close> the line holds at that moment (after
  \<open>word_boxes\<close> is replaced by \<open>ws\<close> the value is that of \<open>ws\<close>), and the property has no
  setter: assigning to it raises \<open>AttributeError\<close>.
\<close>

theorem linebox_content_derived:
  "LineBox_get_content (l\<lparr>word_boxes := ws\<rparr>) = py_strip (py_join '' '' (map content ws)) \<and>
   LineBox_get_content l = py_strip (py_join '' '' (map content (word_boxes l))) \<and>
   LineBox_set_content l v = Inl AttributeError"
proof -
  have *: "py_strip (foldl (\<lambda>txt box. txt @ (content box @ '' '')) [] xs)
      = py_strip (py_join '' '' (map content xs))" for xs :: "Box list"
  proof (cases xs)
    case Nil
    then show ?thesis by simp
  next
    case (Cons b bs)
    have "concat (map (\<lambda>b. content b @ '' '') xs)
        = concat (map (\<lambda>c. c @ '' '') (map content xs))"
      by (simp add: comp_def)
    also have "\<dots> = py_join '' '' (map content xs) @ '' ''"
      using Cons by (intro concat_join) simp
    finally show ?thesis
      using py_strip_snoc_space[OF isspace_space, of "py_join '' '' (map content xs)"]
      by (simp add: foldl_content)
  qed
  show ?thesis
    using *[of ws] *[of "word_boxes l"]
    by (simp add: LineBox_get_content_def LineBox_set_content_def to_unicode_def)
qed

section \<open>The positions region of the character-position dialect\<close>

lemma remove_all_filter: "remove_all x xs = filter (\<lambda>y. y \<noteq> x) xs"
proof (induction x xs rule: remove_all.induct)
  case (1 x xs)
  show ?case
  proof (cases "x \<in> set xs")
    case True
    have "filter (\<lambda>y. y \<noteq> x) (remove1 x xs) = filter (\<lambda>y. y \<noteq> x) xs"
      by (induction xs) auto
    with 1 True show ?thesis by (simp add: remove_all.simps[of x xs])
  next
    case False
    then have "filter (\<lambda>y. y \<noteq> x) xs = xs"
      by (induction xs) auto
    with False show ?thesis by (simp add: remove_all.simps[of x xs])
  qed
qed

lemma split_from_nonempty: "split_from sep cur s \<noteq> []"
  by (induction sep cur s rule: split_from.induct) auto

lemma split_from_length_pos: "Suc 0 \<le> length (split_from sep cur s)"
  using split_from_nonempty[of sep cur s] by (cases "split_from sep cur s") auto

lemma split_from_char_snoc:
  "last (split_from [c] cur (s @ [c])) = []"
  by (induction s arbitrary: cur) (auto simp: split_from_nonempty)

lemma split_from_char_length:
  "c \<in> set s \<Longrightarrow> 2 \<le> length (split_from [c] cur s)"
  by (induction s arbitrary: cur) (auto simp: split_from_length_pos)

lemma py_int_empty: "py_int [] = Inl ValueError"
  by (simp add: py_int_def int_strip_def)

lemma filter_keeps_last:
  assumes "xs \<noteq> []" and "P (last xs)"
  shows "filter P xs \<noteq> [] \<and> last (filter P xs) = last xs"
proof -
  have "butlast xs @ [last xs] = xs"
    using assms(1) by (rule append_butlast_last_id)
  then have "filter P xs = filter P (butlast xs @ [last xs])"
    by (simp only:)
  also have "\<dots> = filter P (butlast xs) @ [last xs]"
    using assms(2) by simp
  finally show ?thesis by simp
qed

text \<open>
  The second loop of \<open>handle_starttag\<close> on the attributes of a tag: when every \<open>title\<close>
  attribute has a value and the last of them is \<open>title\<close>, the loop leaves
  \<open>title.split(" ")\<close>, whatever the list held before.
\<close>

lemma scan_titles_none:
  "filter (\<lambda>a. fst a = ''title'') as = [] \<Longrightarrow> scan_titles cp as = Inr cp"
  by (induction as arbitrary: cp) (auto split: if_splits)

lemma scan_titles_last:
  "map snd (filter (\<lambda>a. fst a = ''title'') as) = map Some ts @ [Some title] \<Longrightarrow>
   scan_titles cp as = Inr (Some (py_split title '' ''))"
proof (induction as arbitrary: cp ts)
  case Nil
  then show ?case by simp
next
  case (Cons a as)
  show ?case
  proof (cases "fst a = ''title''")
    case False
    with Cons show ?thesis by simp
  next
    case True
    show ?thesis
    proof (cases ts)
      case Nil
      with True Cons.prems have v: "snd a = Some title"
        and e: "filter (\<lambda>a. fst a = ''title'') as = []"
        by simp_all
      from True v scan_titles_none[OF e] show ?thesis by simp
    next
      case (Cons t ts')
      with True Cons.prems have v: "snd a = Some t"
        and r: "map snd (filter (\<lambda>a. fst a = ''title'') as) = map Some ts' @ [Some title]"
        by simp_all
      from True v Cons.IH[OF r] show ?thesis by simp
    qed
  qed
qed

text \<open>
  C10 (as the code has it). Take the open event of a positions region (\<open>ocr_cinfo\<close>) whose
  attributes carry a title: every \<open>title\<close> attribute has a value, the last one is \<open>title\<close>,
  and \<open>title\<close> holds at least one space. Then, from any parser state, the coordinate list
  becomes the title split on single spaces, without its first token and without any
  token \<open>"-1"\<close>, and nothing else is removed: when the title ends in a space, the empty
  token after that space stays the last token of the list, and \<open>int\<close> of it raises
  \<open>ValueError\<close>.
\<close>

theorem positions_open_tokens:
  assumes "scan_tag_type attrs = TAG_TYPE_POSITIONS"
      and "map snd (filter (\<lambda>a. fst a = ''title'') attrs) = map Some ts @ [Some title]"
      and "CHR '' '' \<in> set title"
  shows "LineHTMLParser_handle_starttag self ''span'' attrs
           = Inr (self\<lparr>char_positions :=
                    Some (filter (\<lambda>t. t \<noteq> ''-1'') (tl (py_split title '' '')))\<rparr>) \<and>
         (last title = CHR '' '' \<longrightarrow>
            filter (\<lambda>t. t \<noteq> ''-1'') (tl (py_split title '' '')) \<noteq> [] \<and>
            last (filter (\<lambda>t. t \<noteq> ''-1'') (tl (py_split title '' ''))) = '''' \<and>
            py_int (last (filter (\<lambda>t. t \<noteq> ''-1'') (tl (py_split title '' '')))) = Inl ValueError)"
proof -
  let ?toks = "py_split title '' ''"
  have titles: "scan_titles (char_positions self) attrs = Inr (Some ?toks)"
    using assms(2) by (rule scan_titles_last)
  from assms(3) have len: "2 \<le> length ?toks"
    unfolding py_split_def by (rule split_from_char_length)
  then have tl_ne: "tl ?toks \<noteq> []"
    by (cases ?toks) auto
  have first: "LineHTMLParser_handle_starttag self ''span'' attrs
           = Inr (self\<lparr>char_positions := Some (filter (\<lambda>t. t \<noteq> ''-1'') (tl ?toks))\<rparr>)"
    using assms(1) titles tl_ne
    by (simp add: LineHTMLParser_handle_starttag_def TAG_TYPE_POSITIONS_def TAG_TYPE_CONTENT_def
        py_last_def drop_Suc remove_all_filter Let_def)
  have second: "filter (\<lambda>t. t \<noteq> ''-1'') (tl ?toks) \<noteq> [] \<and>
            last (filter (\<lambda>t. t \<noteq> ''-1'') (tl ?toks)) = '''' \<and>
            py_int (last (filter (\<lambda>t. t \<noteq> ''-1'') (tl ?toks))) = Inl ValueError"
    if "last title = CHR '' ''"
  proof -
    from assms(3) have "title \<noteq> []" by auto
    with that have "title = butlast title @ '' ''"
      using append_butlast_last_id[of title] by simp
    then have "last ?toks = []"
      unfolding py_split_def using split_from_char_snoc[of "CHR '' ''" "[]" "butlast title"] by simp
    with tl_ne have l: "last (tl ?toks) = []"
      by (cases ?toks) (auto split: if_splits)
    then have "last (tl ?toks) \<noteq> ''-1''" by simp
    with tl_ne have "filter (\<lambda>t. t \<noteq> ''-1'') (tl ?toks) \<noteq> [] \<and>
        last (filter (\<lambda>t. t \<noteq> ''-1'') (tl ?toks)) = last (tl ?toks)"
      by (intro filter_keeps_last)
    with l show ?thesis by (simp add: py_int_empty)
  qed
  from first second show ?thesis by blast
qed

theorem positions_open_tokens_witness:
  "scan_tag_type [(''class'', Some ''ocr_cinfo''), (''title'', Some ''x_bboxes 1 2 3 4 -1 -1 -1 -1 '')]
      = TAG_TYPE_POSITIONS \<and>
   map snd (filter (\<lambda>a. fst a = ''title'')
      [(''class'', Some ''ocr_cinfo''), (''title'', Some ''x_bboxes 1 2 3 4 -1 -1 -1 -1 '')])
      = map Some [] @ [Some ''x_bboxes 1 2 3 4 -1 -1 -1 -1 ''] \<and>
   CHR '' '' \<in> set ''x_bboxes 1 2 3 4 -1 -1 -1 -1 '' \<and>
   last ''x_bboxes 1 2 3 4 -1 -1 -1 -1 '' = CHR '' '' \<and>
   LineHTMLParser_handle_starttag
      \<lparr>LineHTMLParser.boxes = [], line_text = Some ''a'', char_positions = Some [''9'', ''9'']\<rparr>
      ''span'' [(''class'', Some ''ocr_cinfo''), (''title'', Some ''x_bboxes 1 2 3 4 -1 -1 -1 -1 '')]
      = Inr \<lparr>LineHTMLParser.boxes = [], line_text = Some ''a'',
             char_positions = Some [''1'', ''2'', ''3'', ''4'', '''']\<rparr> \<and>
   py_int '''' = Inl ValueError"
proof -
  let ?attrs = "[(''class'', Some ''ocr_cinfo''), (''title'', Some ''x_bboxes 1 2 3 4 -1 -1 -1 -1 '')]"
  let ?title = "''x_bboxes 1 2 3 4 -1 -1 -1 -1 ''"
  let ?self = "\<lparr>LineHTMLParser.boxes = [], line_text = Some ''a'', char_positions = Some [''9'', ''9'']\<rparr>"
  have h1: "scan_tag_type ?attrs = TAG_TYPE_POSITIONS"
    by (simp add: scan_tag_type_def TAG_TYPE_POSITIONS_def TAG_TYPE_CONTENT_def)
  have h2: "map snd (filter (\<lambda>a. fst a = ''title'') ?attrs) = map Some [] @ [Some ?title]"
    by simp
  have h3: "CHR '' '' \<in> set ?title" by simp
  have h4: "last ?title = CHR '' ''" by simp
  have toks: "filter (\<lambda>t. t \<noteq> ''-1'') (tl (py_split ?title '' '')) = [''1'', ''2'', ''3'', ''4'', '''']"
    by (simp add: py_split_def)
  from positions_open_tokens[OF h1 h2 h3, of ?self] h1 h2 h3 h4 show ?thesis
    by (simp add: toks)
qed

text \<open>
  C10 as the claim words it, for every title, fails on a title without a space: for
  \<open>title="x_bboxes"\<close> the claimed list is the empty list, but nothing is left after the
  first token is dropped and \<open>self.__char_positions[-1]\<close> raises \<open>IndexError\<close>.
\<close>

theorem positions_open_tokens_counterexample:
  "scan_tag_type [(''class'', Some ''ocr_cinfo''), (''title'', Some ''x_bboxes'')]
      = TAG_TYPE_POSITIONS \<and>
   remove_all ''-1'' (drop 1 (py_split ''x_bboxes'' '' '')) = [] \<and>
   LineHTMLParser_handle_starttag
      \<lparr>LineHTMLParser.boxes = [], line_text = Some ''a'', char_positions = Some []\<rparr>
      ''span'' [(''class'', Some ''ocr_cinfo''), (''title'', Some ''x_bboxes'')]
      = Inl IndexError"
  by code_simp

section \<open>The word-tag dialect: a title without \<open>bbox\<close>\<close>

lemma parse_position_pieces_lacking:
  "list_all (\<lambda>piece. \<not> py_startswith (py_strip piece) ''bbox'') ps \<Longrightarrow>
   parse_position_pieces title ps = Inl (Exception (''Invalid hocr position: '' @ title))"
  by (induction ps) (simp_all add: Let_def)

lemma parse_position_lacking:
  "lacks_bbox title \<Longrightarrow> parse_position title = Inl (Exception (''Invalid hocr position: '' @ title))"
  unfolding lacks_bbox_def parse_position_def by (rule parse_position_pieces_lacking)

lemma word_starttag_lacking:
  assumes "scan_attrs attrs = (Some title, Some tag_type)"
      and "tag_type = ''ocr_word'' \<or> tag_type = ''ocrx_word''"
      and "lacks_bbox title"
  shows "WordHTMLParser_handle_starttag self ''span'' attrs
           = Inr (self\<lparr>tag_types := tag_types self @ [''ignore'']\<rparr>)"
  using assms(1,2) parse_position_lacking[OF assms(3)]
  by (auto simp: WordHTMLParser_handle_starttag_def split: sum.splits)

lemma word_data_tag_types:
  "WordHTMLParser_handle_data (self\<lparr>tag_types := ts\<rparr>) d
     = (WordHTMLParser_handle_data self d)\<lparr>tag_types := ts\<rparr>"
  by (simp add: WordHTMLParser_handle_data_def split: option.splits)

lemma word_data_keeps:
  "tag_types (WordHTMLParser_handle_data self d) = tag_types self \<and>
   WordHTMLParser.boxes (WordHTMLParser_handle_data self d) = WordHTMLParser.boxes self \<and>
   lines (WordHTMLParser_handle_data self d) = lines self"
  by (simp add: WordHTMLParser_handle_data_def split: option.splits)

lemma word_feed_data:
  "WordHTMLParser_feed self (map Data ds @ rest)
     = WordHTMLParser_feed (foldl WordHTMLParser_handle_data self ds) rest"
  by (induction ds arbitrary: self) simp_all

lemma word_foldl_data_tag_types:
  "foldl WordHTMLParser_handle_data (self\<lparr>tag_types := ts\<rparr>) ds
     = (foldl WordHTMLParser_handle_data self ds)\<lparr>tag_types := ts\<rparr>"
  by (induction ds arbitrary: self) (simp_all add: word_data_tag_types)

lemma word_foldl_data_keeps:
  "tag_types (foldl WordHTMLParser_handle_data self ds) = tag_types self \<and>
   WordHTMLParser.boxes (foldl WordHTMLParser_handle_data self ds) = WordHTMLParser.boxes self \<and>
   lines (foldl WordHTMLParser_handle_data self ds) = lines self"
  by (induction ds arbitrary: self) (simp_all add: word_data_keeps)

lemma word_endtag_ignore:
  "WordHTMLParser_handle_endtag (self\<lparr>tag_types := tag_types self @ [''ignore'']\<rparr>) ''span''
     = Inr self"
  by (simp add: WordHTMLParser_handle_endtag_def Let_def)

text \<open>
  C6. A word tag (class \<open>ocr_word\<close> or \<open>ocrx_word\<close>) whose title lacks a \<open>bbox\<close> piece
  raises nothing: \<open>handle_starttag\<close> pushes \<open>"ignore"\<close> and changes nothing else. With text
  only between its start and its end, the whole document is parsed exactly as the document
  without the two tags: the rest is parsed as before, and the tag adds no box and no line.
\<close>

theorem malformed_word_tag_ignored:
  assumes "scan_attrs attrs = (Some title, Some tag_type)"
      and "tag_type = ''ocr_word'' \<or> tag_type = ''ocrx_word''"
      and "lacks_bbox title"
  shows "WordHTMLParser_handle_starttag self ''span'' attrs
           = Inr (self\<lparr>tag_types := tag_types self @ [''ignore'']\<rparr>) \<and>
         WordHTMLParser_feed self (StartTag ''span'' attrs # map Data ds @ EndTag ''span'' # rest)
           = WordHTMLParser_feed self (map Data ds @ rest) \<and>
         WordHTMLParser_feed self [StartTag ''span'' attrs]
           = Inr (self\<lparr>tag_types := tag_types self @ [''ignore'']\<rparr>) \<and>
         WordHTMLParser_feed self (StartTag ''span'' attrs # map Data ds @ [EndTag ''span''])
           = Inr (foldl WordHTMLParser_handle_data self ds) \<and>
         WordHTMLParser.boxes (foldl WordHTMLParser_handle_data self ds) = WordHTMLParser.boxes self \<and>
         lines (foldl WordHTMLParser_handle_data self ds) = lines self"
proof -
  note st = word_starttag_lacking[OF assms, of self]
  let ?s' = "foldl WordHTMLParser_handle_data self ds"
  have ts: "tag_types ?s' = tag_types self"
    by (simp add: word_foldl_data_keeps)
  have e: "WordHTMLParser_handle_endtag (?s'\<lparr>tag_types := tag_types self @ [''ignore'']\<rparr>) ''span''
      = Inr ?s'"
    using word_endtag_ignore[of ?s'] by (simp only: ts)
  have "WordHTMLParser_feed self (StartTag ''span'' attrs # map Data ds @ EndTag ''span'' # r)
      = WordHTMLParser_feed ?s' r" for r
    by (simp add: st word_feed_data word_foldl_data_tag_types e)
  from this[of rest] this[of "[]"] st show ?thesis
    by (simp add: word_feed_data word_foldl_data_keeps)
qed

theorem malformed_word_tag_ignored_witness:
  "scan_attrs [(''class'', Some ''ocrx_word''), (''title'', Some ''x_wconf 90'')]
     = (Some ''x_wconf 90'', Some ''ocrx_word'') \<and>
   lacks_bbox ''x_wconf 90'' \<and>
   WordHTMLParser_feed WordHTMLParser_init
     [StartTag ''span'' [(''class'', Some ''ocrx_word''), (''title'', Some ''x_wconf 90'')],
      Data ''old'', EndTag ''span'',
      StartTag ''span'' [(''class'', Some ''ocrx_word''), (''title'', Some ''bbox 1 2 3 4'')],
      Data ''new'', EndTag ''span'']
   = Inr (WordHTMLParser_init\<lparr>
        current_box_position := Some ((1, 2), (3, 4)), current_box_confidence := Some 0,
        WordHTMLParser.boxes := [\<lparr>content = ''new'', Box.position = ((1, 2), (3, 4)), confidence = 0\<rparr>],
        current_line_content := [\<lparr>content = ''new'', Box.position = ((1, 2), (3, 4)), confidence = 0\<rparr>]\<rparr>)"
  using malformed_word_tag_ignored [of "[(''class'', Some ''ocrx_word''), (''title'', Some ''x_wconf 90'')]"
      "''x_wconf 90''" "''ocrx_word''" WordHTMLParser_init "[''old'']"
      "[StartTag ''span'' [(''class'', Some ''ocrx_word''), (''title'', Some ''bbox 1 2 3 4'')],
      Data ''new'', EndTag ''span'']"]
  by (simp add: scan_attrs_def lacks_bbox_def py_split_def py_strip_def py_startswith_def
      py_isspace_def WordHTMLParser_init_def WordHTMLParser_handle_data_def
      WordHTMLParser_handle_starttag_def WordHTMLParser_handle_endtag_def
      parse_confidence_def parse_position_def int_at_def py_index_def py_int_def
      int_strip_def int_isspace_def
      is_digit_def digits_val_def digit_val_def Box_init_def to_unicode_def Let_def)


section \<open>The trailing empty region\<close>

text \<open>\<open>WordBoxBuilder.read_file\<close> does drop a last box with empty content.\<close>

lemma word_read_file_trims:
  assumes "WordHTMLParser_feed WordHTMLParser_init html = Inr p"
      and "WordHTMLParser.boxes p \<noteq> []"
      and "content (last (WordHTMLParser.boxes p)) = ''''"
  shows "WordBoxBuilder_read_file html = Inr (butlast (WordHTMLParser.boxes p))"
  using assms by (simp add: WordBoxBuilder_read_file_def pop_empty_last_def to_unicode_def)

text \<open>
  C5 at a failing input. The document has two lines, \<open>Hello\<close> and a line whose only
  word is empty. \<open>LineBoxBuilder.read_file\<close> returns both lines: the last line, whose
  content is the empty string, and its empty word are still there. On the same document
  \<open>WordBoxBuilder.read_file\<close> drops the empty box.
\<close>

theorem linebox_read_file_keeps_trailing_empty:
  "LineBoxBuilder_read_file
     [StartTag ''span'' [(''class'', Some ''ocr_line''), (''title'', Some ''bbox 0 0 40 20'')],
      StartTag ''span'' [(''class'', Some ''ocrx_word''), (''title'', Some ''bbox 0 0 40 20; x_wconf 90'')],
      Data ''Hello'', EndTag ''span'', EndTag ''span'',
      StartTag ''span'' [(''class'', Some ''ocr_line''), (''title'', Some ''bbox 0 30 40 50'')],
      StartTag ''span'' [(''class'', Some ''ocrx_word''), (''title'', Some ''bbox 0 30 40 50; x_wconf 0'')],
      EndTag ''span'', EndTag ''span'']
   = Inr [\<lparr>word_boxes = [\<lparr>content = ''Hello'', Box.position = ((0, 0), (40, 20)), confidence = 90\<rparr>],
           LineBox.position = ((0, 0), (40, 20))\<rparr>,
          \<lparr>word_boxes = [\<lparr>content = '''', Box.position = ((0, 30), (40, 50)), confidence = 0\<rparr>],
           LineBox.position = ((0, 30), (40, 50))\<rparr>] \<and>
   LineBox_get_content
     \<lparr>word_boxes = [\<lparr>content = '''', Box.position = ((0, 30), (40, 50)), confidence = 0\<rparr>],
      LineBox.position = ((0, 30), (40, 50))\<rparr> = '''' \<and>
   WordBoxBuilder_read_file
     [StartTag ''span'' [(''class'', Some ''ocr_line''), (''title'', Some ''bbox 0 0 40 20'')],
      StartTag ''span'' [(''class'', Some ''ocrx_word''), (''title'', Some ''bbox 0 0 40 20; x_wconf 90'')],
      Data ''Hello'', EndTag ''span'', EndTag ''span'',
      StartTag ''span'' [(''class'', Some ''ocr_line''), (''title'', Some ''bbox 0 30 40 50'')],
      StartTag ''span'' [(''class'', Some ''ocrx_word''), (''title'', Some ''bbox 0 30 40 50; x_wconf 0'')],
      EndTag ''span'', EndTag ''span'']
   = Inr [\<lparr>content = ''Hello'', Box.position = ((0, 0), (40, 20)), confidence = 90\<rparr>]"
  by code_simp


section \<open>The character-position dialect: running out of coordinates\<close>

lemma sequence_err_Inl: "Inl e \<in> set rs \<Longrightarrow> \<exists>e'. sequence_err rs = Inl e'"
  by (induction rs) (auto split: sum.splits)

lemma py_range_4: "k < 4 \<Longrightarrow> py_range k (4 * L) 4 = map (\<lambda>i. k + i * 4) [0 ..< L]"
proof -
  assume "k < 4"
  then have "(4 * L - k + 4 - 1) div 4 = L"
    by (cases "L = 0") auto
  then show ?thesis by (simp add: py_range_def)
qed

lemma coords_short:
  assumes "length pos < 4 * L"
  shows "\<exists>e. coords pos 3 (4 * L) = Inl e"
proof -
  from assms have L: "0 < L" by auto
  then have "L - 1 \<in> set [0 ..< L]" by simp
  then have "int_at pos (3 + (L - 1) * 4) \<in> (\<lambda>i. int_at pos (3 + i * 4)) ` set [0 ..< L]"
    by (rule imageI)
  then have "int_at pos (3 + (L - 1) * 4) \<in> set (map (int_at pos) (py_range 3 (4 * L) 4))"
    by (simp add: py_range_4 image_image)
  moreover have "\<not> 3 + (L - 1) * 4 < length pos"
    using assms L by arith
  then have "int_at pos (3 + (L - 1) * 4) = Inl IndexError"
    unfolding int_at_def py_index_def by (simp only: if_False sum.case)
  ultimately show ?thesis
    unfolding coords_def using sequence_err_Inl by metis
qed

lemma max_coords_short: "length pos < 4 * L \<Longrightarrow> \<exists>e. max_coords pos 3 (4 * L) = Inl e"
  using coords_short[of pos L] by (auto simp: max_coords_def)

lemma words_loop_short:
  "char_positions self = Some cp \<Longrightarrow> length cp < 4 * sum_list (map length words) \<Longrightarrow>
   \<exists>e. words_loop self words = Inl e"
proof (induction words arbitrary: self cp)
  case Nil
  then show ?case by simp
next
  case (Cons word words)
  show ?case
  proof (cases "word = []")
    case True
    with Cons.IH[OF Cons.prems(1)] Cons.prems(2) show ?thesis by simp
  next
    case False
    let ?n = "4 * length word"
    let ?pos = "take ?n cp"
    have last: "\<exists>e. max_coords ?pos 3 ?n = Inl e" if "length cp < ?n"
      using that by (intro max_coords_short) simp
    have rec: "\<exists>e. words_loop (self\<lparr>char_positions := Some (drop ?n cp),
        LineHTMLParser.boxes := bs\<rparr>) words = Inl e" if "\<not> length cp < ?n" for bs
    proof (rule Cons.IH)
      show "char_positions (self\<lparr>char_positions := Some (drop ?n cp), LineHTMLParser.boxes := bs\<rparr>)
          = Some (drop ?n cp)" by simp
      from that Cons.prems(2) show "length (drop ?n cp) < 4 * sum_list (map length words)"
        by simp
    qed
    show ?thesis
    proof (cases "length cp < ?n")
      case True
      from last[OF True] obtain e where "max_coords ?pos 3 ?n = Inl e" ..
      with False Cons.prems(1) show ?thesis
        by (auto simp: Let_def split: sum.splits)
    next
      case False
      note ge = this
      from \<open>word \<noteq> []\<close> Cons.prems(1) rec[OF ge] show ?thesis
        by (simp add: Let_def split: sum.splits)
    qed
  qed
qed

lemma split_from_char_concat:
  "concat (split_from [c] cur s) = cur @ filter (\<lambda>x. x \<noteq> c) s"
  by (induction s arbitrary: cur) auto

lemma words_total_length:
  "sum_list (map length (py_split text '' '')) = length (filter (\<lambda>c. c \<noteq> CHR '' '') text)"
proof -
  have "sum_list (map length (py_split text '' '')) = length (concat (py_split text '' ''))"
    by (simp add: length_concat)
  then show ?thesis
    by (simp add: py_split_def split_from_char_concat)
qed

lemma line_endtag_short:
  assumes "line_text self = Some text" and "char_positions self = Some cp" and "cp \<noteq> []"
      and "length cp < 4 * length (filter (\<lambda>c. c \<noteq> CHR '' '') text)"
  shows "\<exists>e. LineHTMLParser_handle_endtag self tag = Inl e"
proof -
  from assms(4) have "length cp < 4 * sum_list (map length (py_split text '' ''))"
    by (simp only: words_total_length)
  from words_loop_short[OF assms(2) this] obtain e where "words_loop self (py_split text '' '') = Inl e" ..
  with assms(1-3) show ?thesis
    by (simp add: LineHTMLParser_handle_endtag_def)
qed

lemma line_feed_append:
  "LineHTMLParser_feed self (xs @ ys)
     = (case LineHTMLParser_feed self xs of Inl e \<Rightarrow> Inl e | Inr s \<Rightarrow> LineHTMLParser_feed s ys)"
  by (induction xs arbitrary: self) (simp_all split: sum.splits)

text \<open>
  C8 (as the code has it). When a close event finds a line text and a non-empty
  coordinate list with fewer than four tokens per non-space character of the text, the
  handler raises; so does \<open>feed\<close> on any document that reaches this point, and so do both
  \<open>read_file\<close>s when the word-tag parser finds no box in the document: nothing is returned.
\<close>

theorem coordinate_exhaustion_fatal:
  assumes "LineHTMLParser_feed LineHTMLParser_init pre = Inr self"
      and "line_text self = Some text" and "char_positions self = Some cp" and "cp \<noteq> []"
      and "length cp < 4 * length (filter (\<lambda>c. c \<noteq> CHR '' '') text)"
      and "\<forall>p. WordHTMLParser_feed WordHTMLParser_init (pre @ EndTag tag # post) = Inr p
             \<longrightarrow> WordHTMLParser.boxes p = []"
  shows "(\<exists>e. LineHTMLParser_handle_endtag self tag = Inl e) \<and>
         (\<exists>e. LineHTMLParser_feed LineHTMLParser_init (pre @ EndTag tag # post) = Inl e) \<and>
         (\<exists>e. WordBoxBuilder_read_file (pre @ EndTag tag # post) = Inl e) \<and>
         (\<exists>e. LineBoxBuilder_read_file (pre @ EndTag tag # post) = Inl e)"
proof -
  from line_endtag_short[OF assms(2-5)] obtain e where e: "LineHTMLParser_handle_endtag self tag = Inl e" ..
  with assms(1) have f: "LineHTMLParser_feed LineHTMLParser_init (pre @ EndTag tag # post) = Inl e"
    by (simp add: line_feed_append)
  show ?thesis
  proof (cases "WordHTMLParser_feed WordHTMLParser_init (pre @ EndTag tag # post)")
    case (Inl e')
    with e f show ?thesis
      by (simp add: WordBoxBuilder_read_file_def LineBoxBuilder_read_file_def)
  next
    case (Inr p)
    with assms(6) have "WordHTMLParser.boxes p = []" by simp
    with Inr e f show ?thesis
      by (simp add: WordBoxBuilder_read_file_def LineBoxBuilder_read_file_def)
  qed
qed


theorem coordinate_exhaustion_fatal_witness:
  "LineHTMLParser_feed LineHTMLParser_init
     [StartTag ''span'' [(''class'', Some ''ocr_line''), (''title'', Some ''bbox 0 0 9 9'')],
      Data ''ab'',
      StartTag ''span'' [(''class'', Some ''ocr_cinfo''), (''title'', Some ''x_bboxes 1 2 3 4'')]]
     = Inr \<lparr>LineHTMLParser.boxes = [], line_text = Some ''ab'',
            char_positions = Some [''1'', ''2'', ''3'', ''4'']\<rparr> \<and>
   length [''1'', ''2'', ''3'', ''4''] < 4 * length (filter (\<lambda>c. c \<noteq> CHR '' '') ''ab'') \<and>
   WordHTMLParser_feed WordHTMLParser_init
     ([StartTag ''span'' [(''class'', Some ''ocr_line''), (''title'', Some ''bbox 0 0 9 9'')],
      Data ''ab'',
      StartTag ''span'' [(''class'', Some ''ocr_cinfo''), (''title'', Some ''x_bboxes 1 2 3 4'')]]
      @ EndTag ''span'' # [EndTag ''span''])
     = Inr (WordHTMLParser_init\<lparr>current_line_position := Some ((0, 0), (9, 9)),
          lines := [\<lparr>word_boxes = [], LineBox.position = ((0, 0), (9, 9))\<rparr>]\<rparr>) \<and>
   (\<exists>e. WordBoxBuilder_read_file
     ([StartTag ''span'' [(''class'', Some ''ocr_line''), (''title'', Some ''bbox 0 0 9 9'')],
      Data ''ab'',
      StartTag ''span'' [(''class'', Some ''ocr_cinfo''), (''title'', Some ''x_bboxes 1 2 3 4'')]]
      @ EndTag ''span'' # [EndTag ''span'']) = Inl e)"
proof -
  let ?pre = "[StartTag ''span'' [(''class'', Some ''ocr_line''), (''title'', Some ''bbox 0 0 9 9'')],
      Data ''ab'',
      StartTag ''span'' [(''class'', Some ''ocr_cinfo''), (''title'', Some ''x_bboxes 1 2 3 4'')]]"
  let ?self = "\<lparr>LineHTMLParser.boxes = [], line_text = Some ''ab'',
            char_positions = Some [''1'', ''2'', ''3'', ''4'']\<rparr>"
  have h1: "LineHTMLParser_feed LineHTMLParser_init ?pre = Inr ?self"
    by code_simp
  have h2: "line_text ?self = Some ''ab''" by simp
  have h3: "char_positions ?self = Some [''1'', ''2'', ''3'', ''4'']" by simp
  have h4: "[''1'', ''2'', ''3'', ''4''] \<noteq> []" by simp
  have h5: "length [''1'', ''2'', ''3'', ''4''] < 4 * length (filter (\<lambda>c. c \<noteq> CHR '' '') ''ab'')"
    by simp
  have w: "WordHTMLParser_feed WordHTMLParser_init (?pre @ EndTag ''span'' # [EndTag ''span''])
      = Inr (WordHTMLParser_init\<lparr>current_line_position := Some ((0, 0), (9, 9)),
          lines := [\<lparr>word_boxes = [], LineBox.position = ((0, 0), (9, 9))\<rparr>]\<rparr>)"
    by code_simp
  have h6: "\<forall>p. WordHTMLParser_feed WordHTMLParser_init (?pre @ EndTag ''span'' # [EndTag ''span'']) = Inr p
      \<longrightarrow> WordHTMLParser.boxes p = []"
    by (simp only: w) (simp add: WordHTMLParser_init_def)
  from coordinate_exhaustion_fatal[OF h1 h2 h3 h4 h5 h6] h1 h5 w show ?thesis
    by blast
qed

text \<open>
  C8 as the spec words it fails on a line whose positions region holds sentinels only:
  the text \<open>a\<close> has one non-space character, no coordinate token is left, and the close
  event returns at its guard for an empty coordinate list. Nothing is raised, and
  \<open>read_file\<close> returns the empty collection.
\<close>

theorem coordinate_exhaustion_counterexample:
  "LineHTMLParser_feed LineHTMLParser_init
     [StartTag ''span'' [(''class'', Some ''ocr_line''), (''title'', Some ''bbox 0 0 9 9'')],
      Data ''a'',
      StartTag ''span'' [(''class'', Some ''ocr_cinfo''), (''title'', Some ''x_bboxes -1 -1 -1 -1'')]]
     = Inr \<lparr>LineHTMLParser.boxes = [], line_text = Some ''a'', char_positions = Some []\<rparr> \<and>
   length ([] :: string list) < 4 * length (filter (\<lambda>c. c \<noteq> CHR '' '') ''a'') \<and>
   LineHTMLParser_feed LineHTMLParser_init
     [StartTag ''span'' [(''class'', Some ''ocr_line''), (''title'', Some ''bbox 0 0 9 9'')],
      Data ''a'',
      StartTag ''span'' [(''class'', Some ''ocr_cinfo''), (''title'', Some ''x_bboxes -1 -1 -1 -1'')],
      EndTag ''span'', EndTag ''span'']
     = Inr \<lparr>LineHTMLParser.boxes = [], line_text = Some ''a'', char_positions = Some []\<rparr> \<and>
   WordBoxBuilder_read_file
     [StartTag ''span'' [(''class'', Some ''ocr_line''), (''title'', Some ''bbox 0 0 9 9'')],
      Data ''a'',
      StartTag ''span'' [(''class'', Some ''ocr_cinfo''), (''title'', Some ''x_bboxes -1 -1 -1 -1'')],
      EndTag ''span'', EndTag ''span'']
     = Inr []"
  by code_simp

section \<open>The character-position dialect: the boxes of a line\<close>

lemma length_quad_tokens: "length (quad_tokens q) = 4"
  by (simp add: quad_tokens_def)

lemma length_flat: "length (concat (map quad_tokens qs)) = 4 * length qs"
  by (induction qs) (simp_all add: length_quad_tokens)

lemma nth_flat:
  "i < length qs \<Longrightarrow> k < 4 \<Longrightarrow> concat (map quad_tokens qs) ! (k + i * 4) = quad_tokens (qs ! i) ! k"
proof (induction qs arbitrary: i)
  case Nil
  then show ?case by simp
next
  case (Cons q qs)
  show ?case
  proof (cases i)
    case 0
    with Cons.prems show ?thesis
      by (simp add: nth_append length_quad_tokens)
  next
    case (Suc j)
    with Cons.prems have "concat (map quad_tokens qs) ! (k + j * 4) = quad_tokens (qs ! j) ! k"
      by (intro Cons.IH) simp_all
    moreover have "k + Suc j * 4 - 4 = k + j * 4" by simp
    ultimately show ?thesis
      using Suc by (simp add: nth_append length_quad_tokens)
  qed
qed

lemma sequence_err_map_Inr:
  "(\<And>x. x \<in> set xs \<Longrightarrow> f x = Inr (g x)) \<Longrightarrow> sequence_err (map f xs) = Inr (map g xs)"
  by (induction xs) simp_all

lemma coords_ok:
  assumes "map py_int toks = map Inr (concat (map quad_tokens qs))" and "k < 4"
  shows "coords toks k (4 * length qs) = Inr (map (\<lambda>q. quad_tokens q ! k) qs)"
proof -
  from assms(1) have "length (map py_int toks) = length (map Inr (concat (map quad_tokens qs)) :: (py_error + int) list)"
    by (simp only:)
  then have len: "length toks = 4 * length qs"
    by (simp add: length_flat)
  have at: "int_at toks (k + i * 4) = Inr (quad_tokens (qs ! i) ! k)" if "i < length qs" for i
  proof -
    from that assms(2) len have lt: "k + i * 4 < length toks" by simp
    then have "py_int (toks ! (k + i * 4)) = map py_int toks ! (k + i * 4)" by simp
    also have "\<dots> = Inr (concat (map quad_tokens qs) ! (k + i * 4))"
      using lt len by (simp only: assms(1)) (simp add: length_flat)
    finally show ?thesis
      using lt nth_flat[OF that assms(2)] by (simp add: int_at_def py_index_def)
  qed
  have "sequence_err (map (\<lambda>i. int_at toks (k + i * 4)) [0 ..< length qs])
      = Inr (map (\<lambda>i. quad_tokens (qs ! i) ! k) [0 ..< length qs])"
    by (rule sequence_err_map_Inr) (simp add: at)
  moreover have "map (\<lambda>i. quad_tokens (qs ! i) ! k) [0 ..< length qs] = map (\<lambda>q. quad_tokens q ! k) qs"
    by (rule nth_equalityI) simp_all
  ultimately show ?thesis
    using assms(2) by (simp add: coords_def py_range_4 comp_def)
qed

lemma py_min_Min: "xs \<noteq> [] \<Longrightarrow> py_min xs = Inr (Min (set xs))"
proof (cases xs)
  case Nil
  assume "xs \<noteq> []"
  with Nil show ?thesis by simp
next
  case (Cons a list)
  then show ?thesis
    using Min.set_eq_fold[of a list] by (simp add: py_min_def)
qed

lemma py_max_Max: "xs \<noteq> [] \<Longrightarrow> py_max xs = Inr (Max (set xs))"
proof (cases xs)
  case Nil
  assume "xs \<noteq> []"
  with Nil show ?thesis by simp
next
  case (Cons a list)
  then show ?thesis
    using Max.set_eq_fold[of a list] by (simp add: py_max_def)
qed

lemma quad_proj:
  "(\<lambda>q. quad_tokens q ! 0) = quad_x1"
  "(\<lambda>q. quad_tokens q ! 1) = quad_y1"
  "(\<lambda>q. quad_tokens q ! Suc 0) = quad_y1"
  "(\<lambda>q. quad_tokens q ! 2) = quad_x2"
  "(\<lambda>q. quad_tokens q ! 3) = quad_y2"
  by (simp_all add: quad_tokens_def fun_eq_iff)

lemma word_coords:
  assumes "map py_int toks = map Inr (concat (map quad_tokens qs))" and "qs \<noteq> []"
  shows "min_coords toks 0 (4 * length qs) = Inr (fst (fst (word_bbox qs)))"
    and "min_coords toks 1 (4 * length qs) = Inr (snd (fst (word_bbox qs)))"
    and "max_coords toks 2 (4 * length qs) = Inr (fst (snd (word_bbox qs)))"
    and "max_coords toks 3 (4 * length qs) = Inr (snd (snd (word_bbox qs)))"
  using assms(2)
  by (simp_all add: min_coords_def max_coords_def coords_ok[OF assms(1)] py_min_Min py_max_Max
      word_bbox_def quad_proj)

lemma words_loop_ok:
  assumes "list_all2 (\<lambda>w qs. length qs = length w) (filter (\<lambda>w. w \<noteq> []) words) qss"
      and "char_positions self = Some (toks @ rest)"
      and "map py_int toks = map Inr (concat (map quad_tokens (concat qss)))"
  shows "words_loop self words
      = Inr (self\<lparr>LineHTMLParser.boxes := LineHTMLParser.boxes self
                    @ map (\<lambda>(w, qs). word_box w qs) (zip (filter (\<lambda>w. w \<noteq> []) words) qss),
                  char_positions := Some rest\<rparr>)"
  using assms
proof (induction words arbitrary: self qss toks)
  case Nil
  then have "toks = []" by simp
  with Nil.prems(2) have "self\<lparr>char_positions := Some rest\<rparr> = self"
    by (cases self) simp
  then show ?case by simp
next
  case (Cons word words)
  show ?case
  proof (cases "word = []")
    case True
    with Cons.prems have "words_loop self words
      = Inr (self\<lparr>LineHTMLParser.boxes := LineHTMLParser.boxes self
                    @ map (\<lambda>(w, qs). word_box w qs) (zip (filter (\<lambda>w. w \<noteq> []) words) qss),
                  char_positions := Some rest\<rparr>)"
      by (intro Cons.IH) simp_all
    with True show ?thesis by simp
  next
    case False
    with Cons.prems(1) obtain qs qss' where qss: "qss = qs # qss'"
      and lq: "length qs = length word"
      and rest2: "list_all2 (\<lambda>w qs. length qs = length w) (filter (\<lambda>w. w \<noteq> []) words) qss'"
      by (auto simp: list_all2_Cons1)
    from False lq have qs_ne: "qs \<noteq> []" by auto
    from Cons.prems(3) qss
    have "map py_int toks = map Inr (concat (map quad_tokens qs))
        @ map Inr (concat (map quad_tokens (concat qss')))"
      by simp
    then obtain t1 t2 where toks: "toks = t1 @ t2"
      and t1: "map py_int t1 = map Inr (concat (map quad_tokens qs))"
      and t2: "map py_int t2 = map Inr (concat (map quad_tokens (concat qss')))"
      by (auto simp: map_eq_append_conv)
    from t1 have "length (map py_int t1) = length (map Inr (concat (map quad_tokens qs)) :: (py_error + int) list)"
      by (simp only:)
    then have len1: "length t1 = 4 * length word"
      by (simp add: length_flat lq)
    let ?box = "word_box word qs"
    let ?self' = "self\<lparr>char_positions := Some (t2 @ rest),
        LineHTMLParser.boxes := LineHTMLParser.boxes self @ [?box]\<rparr>"
    have step: "words_loop self (word # words) = words_loop ?self' words"
      using False Cons.prems(2) len1 toks word_coords[OF t1 qs_ne] lq
      by (simp add: Let_def Box_init_def to_unicode_def word_box_def)
    have "words_loop ?self' words
      = Inr (?self'\<lparr>LineHTMLParser.boxes := LineHTMLParser.boxes ?self'
                    @ map (\<lambda>(w, qs). word_box w qs) (zip (filter (\<lambda>w. w \<noteq> []) words) qss'),
                  char_positions := Some rest\<rparr>)"
      using rest2 t2 by (intro Cons.IH) simp_all
    with step False qss show ?thesis by simp
  qed
qed

text \<open>
  C7. At a close event with line text \<open>text\<close>, let the non-empty words of
  \<open>text.split(" ")\<close> be matched by lists of quadruples \<open>qss\<close>, one quadruple per character,
  and let the coordinate list start with tokens that \<open>int\<close> reads as the numbers of these
  quadruples, in order. Then the handler raises nothing and appends one box per word, in
  order: its content is the word, its position is
  \<open>((min x1, min y1), (max x2, max y2))\<close> over the word's own quadruples, its confidence
  is 0. The tokens used are removed from the list and the line text is reset.
\<close>

theorem dialect_b_word_boxes:
  assumes "line_text self = Some text"
      and "list_all2 (\<lambda>w qs. length qs = length w)
             (filter (\<lambda>w. w \<noteq> '''') (py_split text '' '')) qss"
      and "char_positions self = Some (toks @ rest)"
      and "map py_int toks = map Inr (concat (map quad_tokens (concat qss)))"
      and "toks @ rest \<noteq> []"
  shows "LineHTMLParser_handle_endtag self tag
      = Inr (self\<lparr>LineHTMLParser.boxes := LineHTMLParser.boxes self
                    @ map (\<lambda>(w, qs). \<lparr>content = w, Box.position = word_bbox qs, confidence = 0\<rparr>)
                        (zip (filter (\<lambda>w. w \<noteq> '''') (py_split text '' '')) qss),
                  char_positions := Some rest, line_text := None\<rparr>)"
proof -
  from assms(3,5) have "char_positions self \<noteq> Some []" by auto
  with assms(1) words_loop_ok[OF assms(2,3,4)] show ?thesis
    by (simp add: LineHTMLParser_handle_endtag_def word_box_def)
qed

theorem dialect_b_word_boxes_witness:
  "list_all2 (\<lambda>w qs. length qs = length w) (filter (\<lambda>w. w \<noteq> '''') (py_split ''Hi  x'' '' ''))
     [[(1, 2, 3, 4), (5, 1, 7, 9)], [(10, 11, 12, 13)]] \<and>
   map py_int [''1'', ''2'', ''3'', ''4'', ''5'', ''1'', ''7'', ''9'', ''10'', ''11'', ''12'', ''13'']
     = map Inr (concat (map quad_tokens (concat [[(1, 2, 3, 4), (5, 1, 7, 9)], [(10, 11, 12, 13)]]))) \<and>
   LineHTMLParser_handle_endtag
     \<lparr>LineHTMLParser.boxes = [], line_text = Some ''Hi  x'',
      char_positions = Some ([''1'', ''2'', ''3'', ''4'', ''5'', ''1'', ''7'', ''9'', ''10'', ''11'', ''12'', ''13''] @ [''''])\<rparr>
     ''span''
   = Inr \<lparr>LineHTMLParser.boxes =
            [\<lparr>content = ''Hi'', Box.position = ((1, 1), (7, 9)), confidence = 0\<rparr>,
             \<lparr>content = ''x'', Box.position = ((10, 11), (12, 13)), confidence = 0\<rparr>],
          line_text = None, char_positions = Some ['''']\<rparr>"
proof -
  let ?qss = "[[(1, 2, 3, 4), (5, 1, 7, 9)], [(10, 11, 12, 13)]] :: (int \<times> int \<times> int \<times> int) list list"
  let ?toks = "[''1'', ''2'', ''3'', ''4'', ''5'', ''1'', ''7'', ''9'', ''10'', ''11'', ''12'', ''13'']"
  let ?self = "\<lparr>LineHTMLParser.boxes = [], line_text = Some ''Hi  x'',
      char_positions = Some (?toks @ [''''])\<rparr>"
  have sp: "filter (\<lambda>w. w \<noteq> '''') (py_split ''Hi  x'' '' '') = [''Hi'', ''x'']"
    by code_simp
  have h1: "line_text ?self = Some ''Hi  x''" by simp
  have h2: "list_all2 (\<lambda>w qs. length qs = length w) (filter (\<lambda>w. w \<noteq> '''') (py_split ''Hi  x'' '' '')) ?qss"
    by (simp only: sp) simp
  have h3: "char_positions ?self = Some (?toks @ [''''])" by simp
  have h4: "map py_int ?toks = map Inr (concat (map quad_tokens (concat ?qss)))"
    by code_simp
  have h5: "?toks @ [''''] \<noteq> []" by simp
  have bb: "word_bbox [(1, 2, 3, 4), (5, 1, 7, 9)] = ((1, 1), (7, 9))"
    "word_bbox [(10, 11, 12, 13)] = ((10, 11), (12, 13))"
    by (simp_all add: word_bbox_def quad_x1_def quad_y1_def quad_x2_def quad_y2_def)
  from dialect_b_word_boxes[OF h1 h2 h3 h4 h5, of "''span''"] h2 h4 show ?thesis
    by (simp add: sp bb)
qed

section \<open>The word-tag parser never misses a stored position\<close>

lemma word_parser_invariant_init: "word_parser_invariant WordHTMLParser_init"
  by (simp add: word_parser_invariant_def WordHTMLParser_init_def)

lemma word_parser_invariant_starttag:
  assumes inv: "word_parser_invariant s" and "WordHTMLParser_handle_starttag s tag as = Inr s'"
  shows "word_parser_invariant s'"
proof (cases "tag \<noteq> ''span''")
  case True
  with assms show ?thesis by (simp add: WordHTMLParser_handle_starttag_def)
next
  case False
  obtain title tag_type where sc: "scan_attrs as = (title, tag_type)"
    by (cases "scan_attrs as")
  show ?thesis
  proof (cases title)
    case None
    with assms False sc show ?thesis by (simp add: WordHTMLParser_handle_starttag_def)
  next
    case (Some t)
    note t = this
    show ?thesis
    proof (cases tag_type)
      case None
      with assms False sc t show ?thesis by (simp add: WordHTMLParser_handle_starttag_def)
    next
      case (Some c)
      consider (word) "c = ''ocr_word'' \<or> c = ''ocrx_word''"
        | (line) "c = ''ocr_line''"
        | (other) "c \<noteq> ''ocr_word''" "c \<noteq> ''ocrx_word''" "c \<noteq> ''ocr_line''"
        by blast
      then show ?thesis
      proof cases
        case word
        then have ne: "c \<noteq> ''ocr_line''" by auto
        from assms(2) False sc t Some word
        have "s' = s\<lparr>tag_types := tag_types s @ [''ignore'']\<rparr> \<or>
            (current_box_confidence s' \<noteq> None \<and> current_box_position s' \<noteq> None \<and>
             tag_types s' = tag_types s @ [c] \<and> current_line_position s' = current_line_position s)"
          by (auto simp: WordHTMLParser_handle_starttag_def split: sum.splits)
        with inv ne show ?thesis
          by (auto simp: word_parser_invariant_def)
      next
        case line
        with assms False sc t Some show ?thesis
          by (auto simp: WordHTMLParser_handle_starttag_def word_parser_invariant_def
              split: sum.splits)
      next
        case other
        with assms False sc t Some show ?thesis
          by (auto simp: WordHTMLParser_handle_starttag_def word_parser_invariant_def)
      qed
    qed
  qed
qed

lemma word_parser_invariant_data:
  "word_parser_invariant s \<Longrightarrow> word_parser_invariant (WordHTMLParser_handle_data s d)"
  by (auto simp: word_parser_invariant_def WordHTMLParser_handle_data_def split: option.splits)

lemma word_endtag_result:
  assumes inv: "word_parser_invariant s"
  shows "WordHTMLParser_handle_endtag s tag = Inl IndexError \<or>
         (\<exists>s1. WordHTMLParser_handle_endtag s tag = Inr s1 \<and>
               set (tag_types s1) \<subseteq> set (tag_types s) \<and>
               current_line_position s1 = current_line_position s \<and>
               current_box_position s1 = current_box_position s \<and>
               current_box_confidence s1 = current_box_confidence s \<and>
               (current_box_text s1 = None \<or> current_box_text s1 = current_box_text s))"
proof (cases "tag \<noteq> ''span'' \<or> tag_types s = []")
  case True
  then show ?thesis by (auto simp: WordHTMLParser_handle_endtag_def)
next
  case False
  then have ne: "tag_types s \<noteq> []" and tg: "tag = ''span''" by auto
  let ?c = "last (tag_types s)"
  have mem: "?c \<in> set (tag_types s)" using ne by simp
  have sub: "set (butlast (tag_types s)) \<subseteq> set (tag_types s)"
    using in_set_butlastD by fastforce
  consider (word) "?c = ''ocr_word'' \<or> ?c = ''ocrx_word''"
    | (line) "?c = ''ocr_line''"
    | (other) "?c \<noteq> ''ocr_word''" "?c \<noteq> ''ocrx_word''" "?c \<noteq> ''ocr_line''"
    by blast
  then show ?thesis
  proof cases
    case word
    show ?thesis
    proof (cases "current_box_text s")
      case None
      with ne tg word sub show ?thesis
        by (simp add: WordHTMLParser_handle_endtag_def Let_def)
    next
      case (Some cur)
      with inv obtain p k where "current_box_position s = Some p" "current_box_confidence s = Some k"
        unfolding word_parser_invariant_def by fastforce
      with ne tg word sub Some show ?thesis
        by (simp add: WordHTMLParser_handle_endtag_def Let_def)
    qed
  next
    case line
    with inv mem obtain p where "current_line_position s = Some p"
      unfolding word_parser_invariant_def by fastforce
    with ne tg line sub show ?thesis
      by (simp add: WordHTMLParser_handle_endtag_def Let_def)
  next
    case other
    with ne tg sub show ?thesis
      by (simp add: WordHTMLParser_handle_endtag_def Let_def)
  qed
qed

lemma word_endtag_invariant_both:
  assumes inv: "word_parser_invariant s"
  shows "WordHTMLParser_handle_endtag s tag \<noteq> Inl TypeError \<and>
         (\<forall>s'. WordHTMLParser_handle_endtag s tag = Inr s' \<longrightarrow> word_parser_invariant s')"
proof -
  from word_endtag_result[OF inv, of tag]
  consider "WordHTMLParser_handle_endtag s tag = Inl IndexError"
    | s1 where "WordHTMLParser_handle_endtag s tag = Inr s1"
      "set (tag_types s1) \<subseteq> set (tag_types s)"
      "current_line_position s1 = current_line_position s"
      "current_box_position s1 = current_box_position s"
      "current_box_confidence s1 = current_box_confidence s"
      "current_box_text s1 = None \<or> current_box_text s1 = current_box_text s"
    by blast
  then show ?thesis
  proof cases
    case 1
    then show ?thesis by simp
  next
    case 2
    from inv have i1: "current_box_text s = None \<or>
        (current_box_position s \<noteq> None \<and> current_box_confidence s \<noteq> None)"
      and i2: "''ocr_line'' \<notin> set (tag_types s) \<or> current_line_position s \<noteq> None"
      unfolding word_parser_invariant_def by blast+
    from i1 2(6) have "current_box_text s1 = None \<or>
        (current_box_position s1 \<noteq> None \<and> current_box_confidence s1 \<noteq> None)"
      unfolding 2(4) 2(5) by (elim disjE) simp_all
    moreover from i2 2(2) have "''ocr_line'' \<notin> set (tag_types s1) \<or> current_line_position s1 \<noteq> None"
      unfolding 2(3) by blast
    ultimately have "word_parser_invariant s1"
      unfolding word_parser_invariant_def by blast
    with 2(1) show ?thesis by simp
  qed
qed

lemma int_at_no_TypeError: "int_at xs i \<noteq> Inl TypeError"
  by (simp add: int_at_def py_index_def py_int_def Let_def split: option.splits)

lemma parse_position_no_TypeError: "parse_position_pieces t ps \<noteq> Inl TypeError"
proof (induction ps)
  case Nil
  show ?case by simp
next
  case (Cons piece ps)
  have "(case int_at xs 1 of Inl e \<Rightarrow> Inl e | Inr a \<Rightarrow>
          (case int_at xs 2 of Inl e \<Rightarrow> Inl e | Inr b \<Rightarrow>
          (case int_at xs 3 of Inl e \<Rightarrow> Inl e | Inr c \<Rightarrow>
          (case int_at xs 4 of Inl e \<Rightarrow> Inl e | Inr d \<Rightarrow> Inr ((a, b), (c, d))))))
        \<noteq> (Inl TypeError :: py_error + rect)" for xs
    using int_at_no_TypeError[of xs 1] int_at_no_TypeError[of xs 2]
      int_at_no_TypeError[of xs 3] int_at_no_TypeError[of xs 4]
    by (auto split: sum.splits)
  with Cons show ?case by (simp add: Let_def)
qed

lemma word_starttag_no_TypeError: "WordHTMLParser_handle_starttag s tag as \<noteq> Inl TypeError"
proof -
  obtain title tag_type where sc: "scan_attrs as = (title, tag_type)"
    by (cases "scan_attrs as")
  have "parse_position t \<noteq> Inl TypeError" for t
    by (simp add: parse_position_def parse_position_no_TypeError)
  then show ?thesis
    by (cases title; cases tag_type)
      (auto simp: WordHTMLParser_handle_starttag_def sc split: sum.splits)
qed

lemma word_parser_invariant_feed:
  "word_parser_invariant s \<Longrightarrow>
   WordHTMLParser_feed s evs \<noteq> Inl TypeError \<and>
   (\<forall>s'. WordHTMLParser_feed s evs = Inr s' \<longrightarrow> word_parser_invariant s')"
proof (induction evs arbitrary: s)
  case Nil
  then show ?case by simp
next
  case (Cons ev evs)
  show ?case
  proof (cases "WordHTMLParser_handle s ev")
    case (Inl e)
    have "e \<noteq> TypeError"
    proof (cases ev)
      case (StartTag tag as)
      with Inl word_starttag_no_TypeError[of s tag as] show ?thesis by auto
    next
      case (EndTag tag)
      with Inl word_endtag_invariant_both[OF Cons.prems, of tag] show ?thesis by auto
    next
      case (Data d)
      with Inl show ?thesis by simp
    qed
    with Inl show ?thesis by simp
  next
    case (Inr s1)
    have "word_parser_invariant s1"
    proof (cases ev)
      case (StartTag tag as)
      with Inr word_parser_invariant_starttag[OF Cons.prems, of tag as s1] show ?thesis by simp
    next
      case (EndTag tag)
      with Inr word_endtag_invariant_both[OF Cons.prems, of tag] show ?thesis by simp
    next
      case (Data d)
      with Inr word_parser_invariant_data[OF Cons.prems, of d] show ?thesis by auto
    qed
    from Cons.IH[OF this] Inr show ?thesis by simp
  qed
qed

section \<open>Writing numbers and reading them back\<close>

lemma of_char_digit_char: "d < 10 \<Longrightarrow> (of_char (digit_char d) :: nat) = 48 + d"
  by (simp add: digit_char_def)

lemma is_digit_digit_char: "d < 10 \<Longrightarrow> is_digit (digit_char d)"
  by (simp add: is_digit_def of_char_digit_char)

lemma digit_val_digit_char: "d < 10 \<Longrightarrow> digit_val (digit_char d) = d"
  by (simp add: digit_val_def of_char_digit_char)

lemma show_nat_digits: "list_all is_digit (show_nat n) \<and> show_nat n \<noteq> []"
proof (induction n rule: show_nat.induct)
  case (1 n)
  show ?case
  proof (cases "n < 10")
    case True
    then show ?thesis by (simp add: show_nat.simps[of n] is_digit_digit_char)
  next
    case False
    with 1 show ?thesis by (simp add: show_nat.simps[of n] is_digit_digit_char)
  qed
qed

lemma digits_val_snoc: "digits_val (ds @ [c]) = 10 * digits_val ds + digit_val c"
  by (simp add: digits_val_def)

lemma digits_val_show_nat: "digits_val (show_nat n) = n"
proof (induction n rule: show_nat.induct)
  case (1 n)
  show ?case
  proof (cases "n < 10")
    case True
    then show ?thesis
      by (simp add: show_nat.simps[of n] digits_val_def digit_val_digit_char)
  next
    case False
    with 1 have "digits_val (show_nat (n div 10)) = n div 10" by simp
    with False show ?thesis
      by (simp add: show_nat.simps[of n] digits_val_snoc digit_val_digit_char)
  qed
qed

lemma digit_not_space: "is_digit c \<Longrightarrow> \<not> py_isspace c"
  by (auto simp: is_digit_def py_isspace_def)

lemma py_strip_id:
  assumes "s \<noteq> []" and "\<not> py_isspace (hd s)" and "\<not> py_isspace (last s)"
  shows "py_strip s = s"
proof -
  from assms(1,2) have "dropWhile py_isspace s = s"
    by (cases s) simp_all
  moreover from assms(1,3) have "dropWhile py_isspace (rev s) = rev s"
    by (cases "rev s") (simp_all add: hd_rev[symmetric])
  ultimately show ?thesis by (simp add: py_strip_def)
qed


lemma hd_last_show_nat:
  "is_digit (hd (show_nat n)) \<and> is_digit (last (show_nat n))"
  using show_nat_digits[of n]
  by (cases "show_nat n") (auto simp: list_all_iff)

lemma digit_not_sign: "is_digit c \<Longrightarrow> c \<noteq> CHR ''-'' \<and> c \<noteq> CHR ''+''"
  by (auto simp: is_digit_def)

lemma digit_not_int_space: "is_digit c \<Longrightarrow> \<not> int_isspace c"
  by (auto simp: is_digit_def int_isspace_def)

lemma int_strip_id:
  assumes "s \<noteq> []" and "\<not> int_isspace (hd s)" and "\<not> int_isspace (last s)"
  shows "int_strip s = s"
proof -
  from assms(1,2) have "dropWhile int_isspace s = s"
    by (cases s) simp_all
  moreover from assms(1,3) have "dropWhile int_isspace (rev s) = rev s"
    by (cases "rev s") (simp_all add: hd_rev[symmetric])
  ultimately show ?thesis by (simp add: int_strip_def)
qed

lemma digit_not_underscore: "is_digit c \<Longrightarrow> c \<noteq> CHR ''_''"
  by (auto simp: is_digit_def)

lemma int_digits_all_digits:
  "ds \<noteq> [] \<Longrightarrow> list_all is_digit ds \<Longrightarrow> int_digits ds = Some ds"
  by (induction ds rule: int_digits.induct) (auto simp: digit_not_underscore)

lemma py_int_show_nat: "py_int (show_nat n) = Inr (int n)"
proof -
  have ne: "show_nat n \<noteq> []" by (simp add: show_nat_digits)
  have "int_strip (show_nat n) = show_nat n"
    using ne hd_last_show_nat[of n] by (intro int_strip_id) (simp_all add: digit_not_int_space)
  moreover have "hd (show_nat n) \<noteq> CHR ''-'' \<and> hd (show_nat n) \<noteq> CHR ''+''"
    using hd_last_show_nat[of n] by (simp add: digit_not_sign)
  moreover have "int_digits (show_nat n) = Some (show_nat n)"
    using ne show_nat_digits[of n] by (intro int_digits_all_digits) simp_all
  ultimately show ?thesis
    by (simp add: py_int_def digits_val_show_nat)
qed

lemma py_int_minus_show_nat: "py_int (CHR ''-'' # show_nat n) = Inr (- int n)"
proof -
  have ne: "show_nat n \<noteq> []" by (simp add: show_nat_digits)
  have "\<not> int_isspace CHR ''-''" by (simp add: int_isspace_def)
  then have "int_strip (CHR ''-'' # show_nat n) = CHR ''-'' # show_nat n"
    using ne hd_last_show_nat[of n] by (intro int_strip_id) (simp_all add: digit_not_int_space)
  moreover have "int_digits (show_nat n) = Some (show_nat n)"
    using ne show_nat_digits[of n] by (intro int_digits_all_digits) simp_all
  ultimately show ?thesis
    by (simp add: py_int_def digits_val_show_nat)
qed

lemma py_int_fmt_d: "py_int (fmt_d n) = Inr n"
  by (simp add: fmt_d_def py_int_show_nat py_int_minus_show_nat)

lemma fmt_d_chars: "c \<in> set (fmt_d n) \<Longrightarrow> is_digit c \<or> c = CHR ''-''"
  using show_nat_digits by (auto simp: fmt_d_def list_all_iff split: if_splits)

lemma fmt_d_no_space: "CHR '' '' \<notin> set (fmt_d n)"
  using fmt_d_chars[of "CHR '' ''" n] by (auto simp: is_digit_def)

lemma fmt_d_no_semicolon: "CHR '';'' \<notin> set (fmt_d n)"
  using fmt_d_chars[of "CHR '';''" n] by (auto simp: is_digit_def)

lemma fmt_d_nonempty: "fmt_d n \<noteq> []"
  by (simp add: fmt_d_def show_nat_digits)

lemma fmt_d_last_not_space: "\<not> py_isspace (last (fmt_d n))"
proof -
  have "last (fmt_d n) = last (show_nat (nat \<bar>n\<bar>))"
    using show_nat_digits by (auto simp: fmt_d_def)
  then show ?thesis
    using hd_last_show_nat[of "nat \<bar>n\<bar>"] by (simp add: digit_not_space)
qed

lemma split_from_char_none: "c \<notin> set s \<Longrightarrow> split_from [c] cur s = [cur @ s]"
  by (induction s arbitrary: cur) auto

lemma split_from_char_next:
  "c \<notin> set s \<Longrightarrow> split_from [c] cur (s @ c # r) = (cur @ s) # split_from [c] [] r"
  by (induction s arbitrary: cur) auto

lemma split_from_two_none: "c \<notin> set s \<Longrightarrow> split_from [c, d] cur s = [cur @ s]"
  by (induction s arbitrary: cur) auto

lemma split_from_two_next:
  "c \<notin> set s \<Longrightarrow> split_from [c, d] cur (s @ c # d # r) = (cur @ s) # split_from [c, d] [] r"
  by (induction s arbitrary: cur) auto

lemma split_title:
  "py_split (bbox_piece p @ ''; x_wconf '' @ fmt_d k) ''; '' = [bbox_piece p, ''x_wconf '' @ fmt_d k]"
proof -
  have a: "CHR '';'' \<notin> set (bbox_piece p)"
    by (simp add: bbox_piece_def fmt_d_no_semicolon)
  have b: "CHR '';'' \<notin> set (''x_wconf '' @ fmt_d k)"
    by (simp add: fmt_d_no_semicolon)
  have "split_from ''; '' [] (bbox_piece p @ CHR '';'' # CHR '' '' # (''x_wconf '' @ fmt_d k))
      = ([] @ bbox_piece p) # split_from ''; '' [] (''x_wconf '' @ fmt_d k)"
    using a by (rule split_from_two_next)
  also have "split_from ''; '' [] (''x_wconf '' @ fmt_d k) = [[] @ (''x_wconf '' @ fmt_d k)]"
    using b by (rule split_from_two_none)
  finally show ?thesis by (simp add: py_split_def)
qed

lemma split_bbox_piece:
  "py_split (bbox_piece p) '' ''
     = [''bbox'', fmt_d (fst (fst p)), fmt_d (snd (fst p)), fmt_d (fst (snd p)), fmt_d (snd (snd p))]"
proof -
  have n: "CHR '' '' \<notin> set ''bbox''" by simp
  have "split_from '' '' [] (''bbox'' @ CHR '' '' # (fmt_d (fst (fst p)) @ CHR '' '' #
          (fmt_d (snd (fst p)) @ CHR '' '' # (fmt_d (fst (snd p)) @ CHR '' '' # fmt_d (snd (snd p))))))
      = [''bbox'', fmt_d (fst (fst p)), fmt_d (snd (fst p)), fmt_d (fst (snd p)), fmt_d (snd (snd p))]"
    by (simp only: split_from_char_next[OF n] split_from_char_next[OF fmt_d_no_space]
        split_from_char_none[OF fmt_d_no_space] append_Nil)
  then show ?thesis by (simp add: py_split_def bbox_piece_def)
qed

lemma split_wconf_piece: "py_split (''x_wconf '' @ fmt_d k) '' '' = [''x_wconf'', fmt_d k]"
proof -
  have n: "CHR '' '' \<notin> set ''x_wconf''" by simp
  have "split_from '' '' [] (''x_wconf'' @ CHR '' '' # fmt_d k) = [''x_wconf'', fmt_d k]"
    by (simp only: split_from_char_next[OF n] split_from_char_none[OF fmt_d_no_space] append_Nil)
  then show ?thesis by (simp add: py_split_def)
qed

lemma strip_bbox_piece: "py_strip (bbox_piece p) = bbox_piece p"
proof (rule py_strip_id)
  show "bbox_piece p \<noteq> []" by (simp add: bbox_piece_def)
  show "\<not> py_isspace (hd (bbox_piece p))" by (simp add: bbox_piece_def py_isspace_def)
  show "\<not> py_isspace (last (bbox_piece p))"
    using fmt_d_last_not_space[of "snd (snd p)"] by (simp add: bbox_piece_def fmt_d_nonempty)
qed

lemma strip_wconf_piece: "py_strip (''x_wconf '' @ fmt_d k) = ''x_wconf '' @ fmt_d k"
proof (rule py_strip_id)
  show "''x_wconf '' @ fmt_d k \<noteq> []" by simp
  show "\<not> py_isspace (hd (''x_wconf '' @ fmt_d k))" by (simp add: py_isspace_def)
  show "\<not> py_isspace (last (''x_wconf '' @ fmt_d k))"
    using fmt_d_last_not_space[of k] by (simp add: fmt_d_nonempty)
qed

lemma startswith_pieces:
  "\<not> py_startswith (bbox_piece p) ''x_wconf''"
  "py_startswith (''x_wconf '' @ fmt_d k) ''x_wconf''"
  "py_startswith (bbox_piece p) ''bbox''"
  by (simp_all add: py_startswith_def bbox_piece_def)

lemma parse_confidence_title:
  "parse_confidence (bbox_piece p @ ''; x_wconf '' @ fmt_d k) = Inr k"
proof -
  have "parse_confidence_pieces [bbox_piece p, ''x_wconf '' @ fmt_d k] = Inr k"
    by (simp only: parse_confidence_pieces.simps Let_def strip_bbox_piece strip_wconf_piece
        startswith_pieces split_wconf_piece not_True_eq_False if_False if_True)
      (simp add: py_index_def py_int_fmt_d)
  then show ?thesis
    by (simp only: parse_confidence_def split_title)
qed

lemma parse_position_title:
  "parse_position (bbox_piece p @ ''; x_wconf '' @ fmt_d k) = Inr p"
proof -
  have "parse_position_pieces t [bbox_piece p, ''x_wconf '' @ fmt_d k] = Inr p" for t
    by (simp only: parse_position_pieces.simps Let_def strip_bbox_piece
        startswith_pieces split_bbox_piece not_True_eq_False if_False if_True)
      (simp add: int_at_def py_index_def py_int_fmt_d)
  then show ?thesis
    by (simp only: parse_position_def split_title)
qed

section \<open>Writing boxes and reading them back\<close>

lemma title_of_box:
  "Box_get_xml_tag b = Element ''span''
     [(''class'', ''ocrx_word''),
      (''title'', bbox_piece (Box.position b) @ ''; x_wconf '' @ fmt_d (confidence b))]
     [Text (content b)]"
  by (simp add: Box_get_xml_tag_def bbox_piece_def)

lemma word_starttag_box:
  "WordHTMLParser_handle_starttag self ''span''
     [(''class'', Some ''ocrx_word''), (''title'', Some (bbox_piece p @ ''; x_wconf '' @ fmt_d k))]
   = Inr (self\<lparr>current_box_confidence := Some k, current_box_position := Some p,
               current_box_text := Some '''', tag_types := tag_types self @ [''ocrx_word'']\<rparr>)"
proof -
  have "WordHTMLParser_handle_starttag self ''span'' [(''class'', Some ''ocrx_word''), (''title'', Some t)]
     = Inr (self\<lparr>current_box_confidence := Some k, current_box_position := Some p,
               current_box_text := Some '''', tag_types := tag_types self @ [''ocrx_word'']\<rparr>)"
    if "parse_confidence t = Inr k" and "parse_position t = Inr p" for t
    using that by (simp add: WordHTMLParser_handle_starttag_def scan_attrs_def to_unicode_def)
  from this[OF parse_confidence_title parse_position_title] show ?thesis .
qed

lemma word_box_events:
  assumes "current_box_text self = None"
  shows "WordHTMLParser_feed self
           ([StartTag ''p'' []] @ xml_events (Box_get_xml_tag b) @ [EndTag ''p'', Data [CHR 0x0A]] @ rest)
         = WordHTMLParser_feed
             (self\<lparr>current_box_confidence := Some (confidence b),
                   current_box_position := Some (Box.position b),
                   WordHTMLParser.boxes := WordHTMLParser.boxes self @ [b],
                   current_line_content := current_line_content self @ [b]\<rparr>) rest"
proof -
  define t where "t = bbox_piece (Box.position b) @ ''; x_wconf '' @ fmt_d (confidence b)"
  have st: "WordHTMLParser_handle_starttag self ''span''
        [(''class'', Some ''ocrx_word''), (''title'', Some t)]
      = Inr (self\<lparr>current_box_confidence := Some (confidence b),
          current_box_position := Some (Box.position b),
          current_box_text := Some '''', tag_types := tag_types self @ [''ocrx_word'']\<rparr>)"
    unfolding t_def by (rule word_starttag_box)
  have xml: "xml_events (Box_get_xml_tag b)
      = StartTag ''span'' [(''class'', Some ''ocrx_word''), (''title'', Some t)]
          # xml_events (Text (content b)) @ [EndTag ''span'']"
    unfolding t_def title_of_box by simp
  let ?s1 = "self\<lparr>current_box_confidence := Some (confidence b),
      current_box_position := Some (Box.position b),
      current_box_text := Some '''', tag_types := tag_types self @ [''ocrx_word'']\<rparr>"
  let ?s2 = "self\<lparr>current_box_confidence := Some (confidence b),
      current_box_position := Some (Box.position b),
      current_box_text := Some (content b), tag_types := tag_types self @ [''ocrx_word'']\<rparr>"
  let ?s3 = "self\<lparr>current_box_confidence := Some (confidence b),
                   current_box_position := Some (Box.position b),
                   WordHTMLParser.boxes := WordHTMLParser.boxes self @ [b],
                   current_line_content := current_line_content self @ [b]\<rparr>"
  have p: "WordHTMLParser_handle_starttag self ''p'' [] = Inr self"
    by (simp add: WordHTMLParser_handle_starttag_def)
  have d: "WordHTMLParser_feed ?s1 (xml_events (Text (content b)) @ r) = WordHTMLParser_feed ?s2 r" for r
    by (cases self) (simp add: WordHTMLParser_handle_data_def to_unicode_def)
  have bx: "Box_init (content b) (Box.position b) (confidence b) = b"
    by (simp add: Box_init_def to_unicode_def)
  have e: "WordHTMLParser_handle_endtag ?s2 ''span'' = Inr (?s3\<lparr>current_box_text := None\<rparr>)"
    by (cases self) (simp add: WordHTMLParser_handle_endtag_def Let_def bx)
  have s3: "?s3\<lparr>current_box_text := None\<rparr> = ?s3"
    using assms by (cases self) simp
  have f: "WordHTMLParser_feed ?s3 (EndTag ''p'' # Data [CHR 0x0A] # rest) = WordHTMLParser_feed ?s3 rest"
    using assms by (simp add: WordHTMLParser_handle_endtag_def WordHTMLParser_handle_data_def)
  have "WordHTMLParser_feed self
           ([StartTag ''p'' []] @ xml_events (Box_get_xml_tag b) @ [EndTag ''p'', Data [CHR 0x0A]] @ rest)
      = WordHTMLParser_feed ?s1 (xml_events (Text (content b)) @ (EndTag ''span'' # EndTag ''p'' # Data [CHR 0x0A] # rest))"
    by (simp add: xml p st del: xml_events.simps(1))
  also have "\<dots> = WordHTMLParser_feed ?s2 (EndTag ''span'' # EndTag ''p'' # Data [CHR 0x0A] # rest)"
    by (rule d)
  also have "\<dots> = WordHTMLParser_feed ?s3 (EndTag ''p'' # Data [CHR 0x0A] # rest)"
    by (simp add: e s3)
  also note f
  finally show ?thesis .
qed

lemma word_boxes_events:
  "current_box_text self = None \<Longrightarrow>
   \<exists>s'. WordHTMLParser_feed self (concat (map box_events bs) @ rest) = WordHTMLParser_feed s' rest \<and>
        WordHTMLParser.boxes s' = WordHTMLParser.boxes self @ bs \<and> current_box_text s' = None"
proof (induction bs arbitrary: self)
  case Nil
  then show ?case by auto
next
  case (Cons b bs)
  let ?s = "self\<lparr>current_box_confidence := Some (confidence b),
                   current_box_position := Some (Box.position b),
                   WordHTMLParser.boxes := WordHTMLParser.boxes self @ [b],
                   current_line_content := current_line_content self @ [b]\<rparr>"
  have "WordHTMLParser_feed self (concat (map box_events (b # bs)) @ rest)
      = WordHTMLParser_feed ?s (concat (map box_events bs) @ rest)"
    using word_box_events[OF Cons.prems, of b "concat (map box_events bs) @ rest"]
    by (simp add: box_events_def)
  moreover from Cons.prems have "current_box_text ?s = None" by simp
  from Cons.IH[OF this] obtain s' where
    "WordHTMLParser_feed ?s (concat (map box_events bs) @ rest) = WordHTMLParser_feed s' rest"
    "WordHTMLParser.boxes s' = WordHTMLParser.boxes ?s @ bs" "current_box_text s' = None"
    by blast
  ultimately show ?case by auto
qed

lemma word_header:
  "WordHTMLParser_feed WordHTMLParser_init (XHTML_HEADER @ [StartTag ''body'' [], Data [CHR 0x0A]] @ rest)
     = WordHTMLParser_feed WordHTMLParser_init rest"
  by (simp add: XHTML_HEADER_def WordHTMLParser_handle_starttag_def WordHTMLParser_handle_endtag_def
      WordHTMLParser_handle_data_def WordHTMLParser_init_def)

lemma word_footer:
  "current_box_text s = None \<Longrightarrow>
   WordHTMLParser_feed s [EndTag ''body'', Data [CHR 0x0A], EndTag ''html'', Data [CHR 0x0A]] = Inr s"
  by (simp add: WordHTMLParser_handle_endtag_def WordHTMLParser_handle_data_def)

lemma word_feed_written:
  "\<exists>s. WordHTMLParser_feed WordHTMLParser_init (WordBoxBuilder_write_file bs) = Inr s \<and>
       WordHTMLParser.boxes s = bs"
proof -
  have i: "current_box_text WordHTMLParser_init = None"
    by (simp add: WordHTMLParser_init_def)
  from word_boxes_events[OF i, of bs "[EndTag ''body'', Data [CHR 0x0A], EndTag ''html'', Data [CHR 0x0A]]"]
  obtain s' where s': "WordHTMLParser_feed WordHTMLParser_init
        (concat (map box_events bs) @ [EndTag ''body'', Data [CHR 0x0A], EndTag ''html'', Data [CHR 0x0A]])
      = WordHTMLParser_feed s' [EndTag ''body'', Data [CHR 0x0A], EndTag ''html'', Data [CHR 0x0A]]"
    and b: "WordHTMLParser.boxes s' = WordHTMLParser.boxes WordHTMLParser_init @ bs"
    and t: "current_box_text s' = None"
    by blast
  have w: "WordBoxBuilder_write_file bs = XHTML_HEADER @ [StartTag ''body'' [], Data [CHR 0x0A]]
      @ (concat (map box_events bs) @ [EndTag ''body'', Data [CHR 0x0A], EndTag ''html'', Data [CHR 0x0A]])"
    by (simp add: WordBoxBuilder_write_file_def box_events_def[abs_def])
  have "WordHTMLParser_feed WordHTMLParser_init (WordBoxBuilder_write_file bs) = Inr s'"
    by (simp only: w word_header s' word_footer[OF t])
  with b show ?thesis by (auto simp: WordHTMLParser_init_def)
qed

lemma line_feed_written_empty:
  "LineHTMLParser_feed LineHTMLParser_init (WordBoxBuilder_write_file []) = Inr LineHTMLParser_init"
  by (simp add: WordBoxBuilder_write_file_def XHTML_HEADER_def LineHTMLParser_handle_starttag_def
      LineHTMLParser_handle_endtag_def LineHTMLParser_handle_data_def LineHTMLParser_init_def)

lemma read_written:
  "WordBoxBuilder_read_file (WordBoxBuilder_write_file bs) = Inr (trim_trailing_empty bs)"
proof -
  from word_feed_written[of bs] obtain s where
    s: "WordHTMLParser_feed WordHTMLParser_init (WordBoxBuilder_write_file bs) = Inr s"
    and b: "WordHTMLParser.boxes s = bs" by blast
  show ?thesis
  proof (cases "bs = []")
    case True
    with s b show ?thesis
      using line_feed_written_empty
      by (simp add: WordBoxBuilder_read_file_def trim_trailing_empty_def LineHTMLParser_init_def)
  next
    case False
    with s b show ?thesis
      by (simp add: WordBoxBuilder_read_file_def trim_trailing_empty_def pop_empty_last_def
          to_unicode_def)
  qed
qed

lemma geometric_refl: "list_all2 (\<lambda>a b. Box_eq a (Some b)) bs bs"
  by (simp add: list_all2_same Box_eq_def Box_box_cmp_def cmp_keys_same)

text \<open>
  C4. For every list of boxes, \<open>WordBoxBuilder.read_file\<close> on the document
  \<open>WordBoxBuilder.write_file\<close> writes for it raises nothing and returns boxes that are,
  one by one, equal under \<open>==\<close> to the boxes of the list after the trim rule (a last box
  with empty content is dropped); positions and confidences are the same.
\<close>

theorem write_read_roundtrip:
  "\<exists>r. WordBoxBuilder_read_file (WordBoxBuilder_write_file bs) = Inr r \<and>
       list_all2 (\<lambda>a b. Box_eq a (Some b)) r (trim_trailing_empty bs) \<and>
       map Box.position r = map Box.position (trim_trailing_empty bs) \<and>
       map confidence r = map confidence (trim_trailing_empty bs)"
  using read_written[of bs] geometric_refl[of "trim_trailing_empty bs"] by simp

end
